theory Spec2Isabelle
  imports Main "HOL-Library.Sublist"
begin

section \<open>Values thrown by a step\<close>

text \<open>
  A JavaScript value that is thrown or used to reject a promise. \<open>JsError n m c\<close> is an
  instance of \<^verbatim>\<open>Error\<close> with the properties \<^verbatim>\<open>name\<close>, \<^verbatim>\<open>message\<close> and
  \<^verbatim>\<open>cause\<close> (\<open>None\<close> when the error was built without a cause). \<open>JsValue s\<close> is any
  other thrown value, given by what \<^verbatim>\<open>String(value)\<close> returns for it.
\<close>

datatype thrown =
    JsError (err_name: string) (err_message: string) (err_cause: "thrown option")
  | JsValue (string_form: string)

text \<open>\<^verbatim>\<open>new Error(message)\<close>.\<close>

definition Error :: "string \<Rightarrow> thrown" where
  "Error m = JsError ''Error'' m None"

section \<open>types.ts\<close>

record AssertHasOptions =
  opt_text :: "string option"
  opt_count :: "nat option"
  opt_exact :: "bool option"
  opt_timeout :: "nat option"

text \<open>
  \<^verbatim>\<open>queryParams?: Record<string, string>\<close>: the own properties of the object in
  the order they were added to it.
\<close>

record AssertPathOptions =
  queryParams :: "(string \<times> string) list option"

text \<open>
  The methods of \<^verbatim>\<open>TestDriver\<close> that return \<^verbatim>\<open>Promise<void>\<close>, each with its
  arguments. (\<^verbatim>\<open>within\<close>, which returns a driver, is kept apart.)
\<close>

datatype op =
    Visit string
  | Click string
  | ClickLink string
  | ClickButton string
  | FillIn string string
  | SelectOption string string
  | Check string
  | Uncheck string
  | Choose string
  | Submit
  | AssertHas string "AssertHasOptions option"
  | RefuteHas string "AssertHasOptions option"
  | AssertText string
  | RefuteText string
  | AssertPath string "AssertPathOptions option"
  | RefutePath string
  | Debug

text \<open>
  A driver object is its private state \<open>'d\<close>; everything else it acts on (the document,
  the page) is the world \<open>'w\<close>. A method that returns \<^verbatim>\<open>Promise<void>\<close> yields
  \<open>None\<close> when the promise resolves and \<open>Some e\<close> when it rejects with \<open>e\<close>, together
  with the driver and the world as the call left them. \<^verbatim>\<open>within\<close> rejects or
  resolves with a new driver.
\<close>

record ('d, 'w) TestDriver =
  perform :: "op \<Rightarrow> 'd \<Rightarrow> 'w \<Rightarrow> thrown option \<times> 'd \<times> 'w"
  scoped :: "string \<Rightarrow> 'd \<Rightarrow> 'w \<Rightarrow> thrown + 'd"

text \<open>
  The closure a step holds. \<open>Do f\<close> is \<^verbatim>\<open>() => this.driver.f(args)\<close>; \<open>Within sel cs\<close>
  is the closure queued by \<^verbatim>\<open>within(sel, fn)\<close>, where \<open>cs\<close> are the methods that
  \<^verbatim>\<open>fn\<close> calls, in order, on the session it is given and returns.
\<close>

datatype call =
    Do op
  | Within string "call list"

record QueuedStep =
  name :: string
  action :: call
  index :: nat

section \<open>errors.ts\<close>

definition nl :: string where
  "nl = [CHR 0x0A]"

definition q :: string where
  "q = [CHR 0x27]"

text \<open>\<^verbatim>\<open>Array.prototype.join\<close>.\<close>

fun join :: "string \<Rightarrow> string list \<Rightarrow> string" where
  "join sep [] = []"
| "join sep [x] = x"
| "join sep (x # y # ys) = x @ sep @ join sep (y # ys)"

text \<open>A non-negative integer in a template literal: its decimal digits.\<close>

fun digits :: "nat \<Rightarrow> string" where
  "digits n =
     (if n < 10 then [''0123456789'' ! n]
      else digits (n div 10) @ [''0123456789'' ! (n mod 10)])"

declare digits.simps [simp del]

fun causeMessage :: "thrown \<Rightarrow> string" where
  "causeMessage (JsError n m c) = m"
| "causeMessage (JsValue s) = s"

definition status :: "QueuedStep \<Rightarrow> QueuedStep \<Rightarrow> string" where
  "status failedStep step =
     (if index step < index failedStep then ''[ok]''
      else if index step = index failedStep then ''[FAILED]''
      else ''[skipped]'')"

text \<open>
  \<^verbatim>\<open>step === failedStep\<close> compares references. Every step object of an engine is
  created by \<^verbatim>\<open>enqueue\<close> with an index of its own, so within one engine two step
  objects are the same object exactly when their fields agree.
\<close>

definition stepLine :: "QueuedStep \<Rightarrow> QueuedStep \<Rightarrow> string" where
  "stepLine failedStep step =
     (let prefix = (if step = failedStep then ''>>> '' else ''    '')
      in prefix @ status failedStep step @ '' '' @ name step)"

definition stepList :: "QueuedStep \<Rightarrow> QueuedStep list \<Rightarrow> string" where
  "stepList failedStep allSteps = join nl (map (stepLine failedStep) allSteps)"

definition StepError_message :: "QueuedStep \<Rightarrow> QueuedStep list \<Rightarrow> thrown \<Rightarrow> string" where
  "StepError_message failedStep allSteps cause =
     ''feather-testing: Step '' @ digits (index failedStep + 1) @ '' of ''
       @ digits (length allSteps) @ '' failed'' @ nl @ nl
     @ ''Failed at: '' @ name failedStep @ nl
     @ ''Cause: '' @ causeMessage cause @ nl @ nl
     @ ''Chain:'' @ nl @ stepList failedStep allSteps @ nl"

definition StepError :: "QueuedStep \<Rightarrow> QueuedStep list \<Rightarrow> thrown \<Rightarrow> thrown" where
  "StepError failedStep allSteps cause =
     JsError ''StepError'' (StepError_message failedStep allSteps cause) (Some cause)"

section \<open>session.ts\<close>

record 'd Session =
  steps :: "QueuedStep list"
  stepIndex :: nat
  driver :: 'd

definition new_Session :: "'d \<Rightarrow> 'd Session" where
  "new_Session d = \<lparr>steps = [], stepIndex = 0, driver = d\<rparr>"

definition enqueue :: "string \<Rightarrow> call \<Rightarrow> 'd Session \<Rightarrow> 'd Session" where
  "enqueue n a s =
     s\<lparr>steps := steps s @ [\<lparr>name = n, action = a, index = stepIndex s\<rparr>],
       stepIndex := stepIndex s + 1\<rparr>"

definition visit :: "string \<Rightarrow> 'd Session \<Rightarrow> 'd Session" where
  "visit path = enqueue (''visit('' @ q @ path @ q @ '')'') (Do (Visit path))"

definition click :: "string \<Rightarrow> 'd Session \<Rightarrow> 'd Session" where
  "click text = enqueue (''click('' @ q @ text @ q @ '')'') (Do (Click text))"

definition clickLink :: "string \<Rightarrow> 'd Session \<Rightarrow> 'd Session" where
  "clickLink text = enqueue (''clickLink('' @ q @ text @ q @ '')'') (Do (ClickLink text))"

definition clickButton :: "string \<Rightarrow> 'd Session \<Rightarrow> 'd Session" where
  "clickButton text =
     enqueue (''clickButton('' @ q @ text @ q @ '')'') (Do (ClickButton text))"

definition fillIn :: "string \<Rightarrow> string \<Rightarrow> 'd Session \<Rightarrow> 'd Session" where
  "fillIn label v =
     enqueue (''fillIn('' @ q @ label @ q @ '', '' @ q @ v @ q @ '')'') (Do (FillIn label v))"

definition selectOption :: "string \<Rightarrow> string \<Rightarrow> 'd Session \<Rightarrow> 'd Session" where
  "selectOption label option =
     enqueue (''selectOption('' @ q @ label @ q @ '', '' @ q @ option @ q @ '')'')
       (Do (SelectOption label option))"

definition check :: "string \<Rightarrow> 'd Session \<Rightarrow> 'd Session" where
  "check label = enqueue (''check('' @ q @ label @ q @ '')'') (Do (Check label))"

definition uncheck :: "string \<Rightarrow> 'd Session \<Rightarrow> 'd Session" where
  "uncheck label = enqueue (''uncheck('' @ q @ label @ q @ '')'') (Do (Uncheck label))"

definition choose' :: "string \<Rightarrow> 'd Session \<Rightarrow> 'd Session" where
  "choose' label = enqueue (''choose('' @ q @ label @ q @ '')'') (Do (Choose label))"

definition submit :: "'d Session \<Rightarrow> 'd Session" where
  "submit = enqueue ''submit()'' (Do Submit)"

definition assertText :: "string \<Rightarrow> 'd Session \<Rightarrow> 'd Session" where
  "assertText text = enqueue (''assertText('' @ q @ text @ q @ '')'') (Do (AssertText text))"

definition refuteText :: "string \<Rightarrow> 'd Session \<Rightarrow> 'd Session" where
  "refuteText text = enqueue (''refuteText('' @ q @ text @ q @ '')'') (Do (RefuteText text))"

text \<open>\<^verbatim>\<open>opts?.text\<close> as a condition: present and not the empty string.\<close>

definition truthy_text :: "AssertHasOptions option \<Rightarrow> string option" where
  "truthy_text opts =
     (case opts of
        None \<Rightarrow> None
      | Some o' \<Rightarrow> (case opt_text o' of
                     None \<Rightarrow> None
                   | Some t \<Rightarrow> if t = [] then None else Some t))"

definition assertHas :: "string \<Rightarrow> AssertHasOptions option \<Rightarrow> 'd Session \<Rightarrow> 'd Session" where
  "assertHas selector opts =
     (let desc = (case truthy_text opts of
                    Some t \<Rightarrow> ''assertHas('' @ q @ selector @ q @ '', text: '' @ q @ t @ q @ '')''
                  | None \<Rightarrow> ''assertHas('' @ q @ selector @ q @ '')'')
      in enqueue desc (Do (AssertHas selector opts)))"

definition refuteHas :: "string \<Rightarrow> AssertHasOptions option \<Rightarrow> 'd Session \<Rightarrow> 'd Session" where
  "refuteHas selector opts =
     (let desc = (case truthy_text opts of
                    Some t \<Rightarrow> ''refuteHas('' @ q @ selector @ q @ '', text: '' @ q @ t @ q @ '')''
                  | None \<Rightarrow> ''refuteHas('' @ q @ selector @ q @ '')'')
      in enqueue desc (Do (RefuteHas selector opts)))"

definition assertPath :: "string \<Rightarrow> AssertPathOptions option \<Rightarrow> 'd Session \<Rightarrow> 'd Session" where
  "assertPath path opts =
     enqueue (''assertPath('' @ q @ path @ q @ '')'') (Do (AssertPath path opts))"

definition refutePath :: "string \<Rightarrow> 'd Session \<Rightarrow> 'd Session" where
  "refutePath path = enqueue (''refutePath('' @ q @ path @ q @ '')'') (Do (RefutePath path))"

definition within :: "string \<Rightarrow> call list \<Rightarrow> 'd Session \<Rightarrow> 'd Session" where
  "within selector fn = enqueue (''within('' @ q @ selector @ q @ '')'') (Within selector fn)"

definition debug :: "'d Session \<Rightarrow> 'd Session" where
  "debug = enqueue ''debug()'' (Do Debug)"

text \<open>
  One chained method call, given by the closure it queues, and a chain of them:
  \<^verbatim>\<open>session.m1(...).m2(...)\<close>.
\<close>

fun invoke :: "call \<Rightarrow> 'd Session \<Rightarrow> 'd Session" where
  "invoke (Do (Visit path)) = visit path"
| "invoke (Do (Click text)) = click text"
| "invoke (Do (ClickLink text)) = clickLink text"
| "invoke (Do (ClickButton text)) = clickButton text"
| "invoke (Do (FillIn label v)) = fillIn label v"
| "invoke (Do (SelectOption label option)) = selectOption label option"
| "invoke (Do (Check label)) = check label"
| "invoke (Do (Uncheck label)) = uncheck label"
| "invoke (Do (Choose label)) = choose' label"
| "invoke (Do Submit) = submit"
| "invoke (Do (AssertHas selector opts)) = assertHas selector opts"
| "invoke (Do (RefuteHas selector opts)) = refuteHas selector opts"
| "invoke (Do (AssertText text)) = assertText text"
| "invoke (Do (RefuteText text)) = refuteText text"
| "invoke (Do (AssertPath path opts)) = assertPath path opts"
| "invoke (Do (RefutePath path)) = refutePath path"
| "invoke (Do Debug) = debug"
| "invoke (Within selector fn) = within selector fn"

definition chain :: "call list \<Rightarrow> 'd Session \<Rightarrow> 'd Session" where
  "chain cs s = fold invoke cs s"

text \<open>
  What a drain reports beside its outcome: the driver methods that were called, in the
  order of the calls.
\<close>

datatype invocation =
    Called op
  | CalledWithin string

text \<open>
  The loop of \<^verbatim>\<open>executeSteps\<close> over the snapshot \<open>all\<close>; \<open>exec\<close> runs the closure
  of a step against the driver.
\<close>

fun run_steps ::
  "(call \<Rightarrow> 'd \<Rightarrow> 'w \<Rightarrow> thrown option \<times> 'd \<times> 'w \<times> invocation list) \<Rightarrow>
   QueuedStep list \<Rightarrow> QueuedStep list \<Rightarrow> 'd \<Rightarrow> 'w \<Rightarrow>
   thrown option \<times> 'd \<times> 'w \<times> invocation list" where
  "run_steps exec all [] d w = (None, d, w, [])"
| "run_steps exec all (step # rest) d w =
     (case exec (action step) d w of
        (Some error, d', w', l) \<Rightarrow> (Some (StepError step all error), d', w', l)
      | (None, d', w', l) \<Rightarrow>
          (case run_steps exec all rest d' w' of
             (r, d'', w'', l') \<Rightarrow> (r, d'', w'', l @ l')))"

definition executeSteps ::
  "(call \<Rightarrow> 'd \<Rightarrow> 'w \<Rightarrow> thrown option \<times> 'd \<times> 'w \<times> invocation list) \<Rightarrow>
   'd Session \<Rightarrow> 'w \<Rightarrow> thrown option \<times> 'd Session \<times> 'w \<times> invocation list" where
  "executeSteps exec s w =
     (let snapshot = steps s;
          s' = s\<lparr>steps := []\<rparr>
      in case run_steps exec snapshot snapshot (driver s') w of
           (r, d', w', l) \<Rightarrow> (r, s'\<lparr>driver := d'\<rparr>, w', l))"

lemma run_steps_cong [fundef_cong]:
  assumes "xs = ys" "all = all'" "d = d'" "w = w'"
    and "\<And>st d w. st \<in> set ys \<Longrightarrow> exec (action st) d w = exec' (action st) d w"
  shows "run_steps exec all xs d w = run_steps exec' all' ys d' w'"
  using assms(5) unfolding assms(1-4)
  by (induction ys arbitrary: d' w') (auto split: prod.splits option.splits)

lemma executeSteps_cong [fundef_cong]:
  assumes "s = s'" "w = w'"
    and "\<And>st d w. st \<in> set (steps s') \<Longrightarrow> exec (action st) d w = exec' (action st) d w"
  shows "executeSteps exec s w = executeSteps exec' s' w'"
  unfolding executeSteps_def assms(1,2) Let_def
  using run_steps_cong [OF refl refl refl refl, of "steps s'" exec exec'] assms(3)
  by simp

lemma steps_invoke:
  "\<exists>n. steps (invoke c s) = steps s @ [\<lparr>name = n, action = c, index = stepIndex s\<rparr>]"
  by (cases c rule: invoke.cases)
     (simp_all add: enqueue_def visit_def click_def clickLink_def clickButton_def fillIn_def
        selectOption_def check_def uncheck_def choose'_def submit_def assertHas_def
        refuteHas_def assertText_def refuteText_def assertPath_def refutePath_def within_def
        debug_def Let_def)

lemma action_chain:
  "st \<in> set (steps (chain cs s)) \<Longrightarrow> st \<in> set (steps s) \<or> action st \<in> set cs"
  unfolding chain_def
proof (induction cs arbitrary: s)
  case Nil
  then show ?case by simp
next
  case (Cons c cs)
  obtain n where "steps (invoke c s) = steps s @ [\<lparr>name = n, action = c, index = stepIndex s\<rparr>]"
    using steps_invoke by blast
  with Cons.IH [of "invoke c s"] Cons.prems show ?case by auto
qed

text \<open>
  Running the closure of a step. The closure of \<^verbatim>\<open>within\<close> asks the driver for a scoped
  driver, builds a new session on it, lets \<^verbatim>\<open>fn\<close> queue its calls there and awaits the
  session that \<^verbatim>\<open>fn\<close> returns, which drains it. The scoped session and its driver are
  dropped afterwards; the driver of the enclosing session is not touched.
\<close>

function run_action ::
  "('d, 'w) TestDriver \<Rightarrow> call \<Rightarrow> 'd \<Rightarrow> 'w \<Rightarrow> thrown option \<times> 'd \<times> 'w \<times> invocation list" where
  "run_action drv (Do f) d w =
     (case perform drv f d w of (r, d', w') \<Rightarrow> (r, d', w', [Called f]))"
| "run_action drv (Within selector fn) d w =
     (case scoped drv selector d w of
        Inl e \<Rightarrow> (Some e, d, w, [CalledWithin selector])
      | Inr scopedDriver \<Rightarrow>
          (let scopedSession = new_Session scopedDriver
           in case executeSteps (\<lambda>a d w. run_action drv a d w) (chain fn scopedSession) w of
                (r, s', w', l) \<Rightarrow> (r, d, w', CalledWithin selector # l)))"
  by pat_completeness auto
termination
proof (relation "measure (\<lambda>(drv, c, d, w). size c)")
  show "wf (measure (\<lambda>(drv :: ('d, 'w) TestDriver, c, d :: 'd, w :: 'w). size c))"
    by simp
next
  fix drv :: "('d, 'w) TestDriver" and selector fn d w x2 x st and xa :: 'd and xb :: 'w
  assume "x = new_Session x2" and "st \<in> set (steps (chain fn x))"
  then have "action st \<in> set fn"
    using action_chain [of st fn x] by (simp add: new_Session_def)
  then have "size (action st) \<le> size_list size fn"
    by (rule size_list_estimation') simp
  then show "((drv, action st, xa, xb), (drv, Within selector fn, d, w))
      \<in> measure (\<lambda>(drv, c, d, w). size c)"
    by simp
qed

text \<open>
  Awaiting a session calls \<^verbatim>\<open>then\<close>, which calls \<^verbatim>\<open>executeSteps\<close> and hands its
  promise on: the trigger of a session on the driver \<open>drv\<close>.
\<close>

definition trigger ::
  "('d, 'w) TestDriver \<Rightarrow> 'd Session \<Rightarrow> 'w \<Rightarrow>
   thrown option \<times> 'd Session \<times> 'w \<times> invocation list" where
  "trigger drv s w = executeSteps (run_action drv) s w"

section \<open>rtl/driver.ts\<close>

text \<open>
  What the adapter imports and does not define: the queries of Testing Library, the
  gestures of user-event, and the DOM. Elements are values of \<open>'e\<close>; the document and
  everything rendered in it is the world \<open>'w\<close>. A container is \<open>None\<close> for
  \<^verbatim>\<open>screen\<close> and \<open>Some el\<close> for \<^verbatim>\<open>rtlWithin(el)\<close>; a root for \<^verbatim>\<open>querySelector\<close> is
  \<open>None\<close> for \<^verbatim>\<open>document.body\<close>. A \<^verbatim>\<open>find*\<close> query rejects when it finds nothing; a
  \<^verbatim>\<open>query*\<close> returns null then, and throws on several matches. \<open>queryByRole_submit\<close> is
  \<^verbatim>\<open>queryByRole("button", { name: /submit/i })\<close>. \<^verbatim>\<open>querySelector\<close> returns the first
  match below the root or null, and throws a \<^verbatim>\<open>SyntaxError\<close> when the selector is not
  a valid one. \<open>bound_container el\<close> is the property \<^verbatim>\<open>container\<close> read from the object
  \<^verbatim>\<open>rtlWithin(el)\<close>, \<open>None\<close> when it is undefined; the object that Testing Library
  returns holds the bound queries and no such property.
\<close>

record ('e, 'w) RTL =
  findByText :: "'e option \<Rightarrow> string \<Rightarrow> 'w \<Rightarrow> thrown + 'e"
  findByRole :: "'e option \<Rightarrow> string \<Rightarrow> string \<Rightarrow> 'w \<Rightarrow> thrown + 'e"
  findByLabelText :: "'e option \<Rightarrow> string \<Rightarrow> 'w \<Rightarrow> thrown + 'e"
  findByPlaceholderText :: "'e option \<Rightarrow> string \<Rightarrow> 'w \<Rightarrow> thrown + 'e"
  queryByText :: "'e option \<Rightarrow> string \<Rightarrow> 'w \<Rightarrow> thrown + 'e option"
  queryByRole_submit :: "'e \<Rightarrow> 'w \<Rightarrow> thrown + 'e option"
  querySelector :: "'e option \<Rightarrow> string \<Rightarrow> 'w \<Rightarrow> thrown + 'e option"
  closest_form :: "'e \<Rightarrow> 'w \<Rightarrow> 'e option"
  checked :: "'e \<Rightarrow> 'w \<Rightarrow> bool"
  bound_container :: "'e \<Rightarrow> 'e option"
  user_click :: "'e \<Rightarrow> 'w \<Rightarrow> thrown option \<times> 'w"
  user_clear :: "'e \<Rightarrow> 'w \<Rightarrow> thrown option \<times> 'w"
  user_type :: "'e \<Rightarrow> string \<Rightarrow> 'w \<Rightarrow> thrown option \<times> 'w"
  user_selectOptions :: "'e \<Rightarrow> string \<Rightarrow> 'w \<Rightarrow> thrown option \<times> 'w"
  requestSubmit :: "'e \<Rightarrow> 'w \<Rightarrow> thrown option \<times> 'w"

record 'e RTLDriver =
  container :: "'e option"
  lastFormElement :: "'e option"

definition new_RTLDriver :: "'e option \<Rightarrow> 'e RTLDriver" where
  "new_RTLDriver c = \<lparr>container = c, lastFormElement = None\<rparr>"

definition dq :: string where
  "dq = [CHR 0x22]"

definition rtl_visit :: "'e RTLDriver \<Rightarrow> 'w \<Rightarrow> thrown option \<times> 'e RTLDriver \<times> 'w" where
  "rtl_visit d w =
     (Some (Error ''visit() is not available in the RTL adapter. Render the desired component directly.''),
      d, w)"

definition rtl_click ::
  "('e, 'w) RTL \<Rightarrow> string \<Rightarrow> 'e RTLDriver \<Rightarrow> 'w \<Rightarrow> thrown option \<times> 'e RTLDriver \<times> 'w" where
  "rtl_click env text d w =
     (case findByText env (container d) text w of
        Inl e \<Rightarrow> (Some e, d, w)
      | Inr element \<Rightarrow> (case user_click env element w of (r, w') \<Rightarrow> (r, d, w')))"

definition rtl_clickLink ::
  "('e, 'w) RTL \<Rightarrow> string \<Rightarrow> 'e RTLDriver \<Rightarrow> 'w \<Rightarrow> thrown option \<times> 'e RTLDriver \<times> 'w" where
  "rtl_clickLink env text d w =
     (case findByRole env (container d) ''link'' text w of
        Inl e \<Rightarrow> (Some e, d, w)
      | Inr link \<Rightarrow> (case user_click env link w of (r, w') \<Rightarrow> (r, d, w')))"

definition rtl_clickButton ::
  "('e, 'w) RTL \<Rightarrow> string \<Rightarrow> 'e RTLDriver \<Rightarrow> 'w \<Rightarrow> thrown option \<times> 'e RTLDriver \<times> 'w" where
  "rtl_clickButton env text d w =
     (case findByRole env (container d) ''button'' text w of
        Inl e \<Rightarrow> (Some e, d, w)
      | Inr button \<Rightarrow> (case user_click env button w of (r, w') \<Rightarrow> (r, d, w')))"

definition rtl_fillIn ::
  "('e, 'w) RTL \<Rightarrow> string \<Rightarrow> string \<Rightarrow> 'e RTLDriver \<Rightarrow> 'w \<Rightarrow>
   thrown option \<times> 'e RTLDriver \<times> 'w" where
  "rtl_fillIn env label v d w =
     (case (case findByLabelText env (container d) label w of
              Inr input \<Rightarrow> Inr input
            | Inl _ \<Rightarrow> findByPlaceholderText env (container d) label w) of
        Inl e \<Rightarrow> (Some e, d, w)
      | Inr input \<Rightarrow>
          (case user_clear env input w of
             (Some e, w1) \<Rightarrow> (Some e, d, w1)
           | (None, w1) \<Rightarrow>
               (case user_type env input v w1 of
                  (Some e, w2) \<Rightarrow> (Some e, d, w2)
                | (None, w2) \<Rightarrow>
                    (None, d\<lparr>lastFormElement := closest_form env input w2\<rparr>, w2))))"

definition rtl_selectOption ::
  "('e, 'w) RTL \<Rightarrow> string \<Rightarrow> string \<Rightarrow> 'e RTLDriver \<Rightarrow> 'w \<Rightarrow>
   thrown option \<times> 'e RTLDriver \<times> 'w" where
  "rtl_selectOption env label option d w =
     (case findByLabelText env (container d) label w of
        Inl e \<Rightarrow> (Some e, d, w)
      | Inr select \<Rightarrow>
          (case user_selectOptions env select option w of
             (Some e, w') \<Rightarrow> (Some e, d, w')
           | (None, w') \<Rightarrow> (None, d\<lparr>lastFormElement := closest_form env select w'\<rparr>, w')))"

definition rtl_check ::
  "('e, 'w) RTL \<Rightarrow> string \<Rightarrow> 'e RTLDriver \<Rightarrow> 'w \<Rightarrow> thrown option \<times> 'e RTLDriver \<times> 'w" where
  "rtl_check env label d w =
     (case findByLabelText env (container d) label w of
        Inl e \<Rightarrow> (Some e, d, w)
      | Inr checkbox \<Rightarrow>
          (if \<not> checked env checkbox w then
             (case user_click env checkbox w of
                (Some e, w') \<Rightarrow> (Some e, d, w')
              | (None, w') \<Rightarrow> (None, d\<lparr>lastFormElement := closest_form env checkbox w'\<rparr>, w'))
           else (None, d\<lparr>lastFormElement := closest_form env checkbox w\<rparr>, w)))"

definition rtl_uncheck ::
  "('e, 'w) RTL \<Rightarrow> string \<Rightarrow> 'e RTLDriver \<Rightarrow> 'w \<Rightarrow> thrown option \<times> 'e RTLDriver \<times> 'w" where
  "rtl_uncheck env label d w =
     (case findByLabelText env (container d) label w of
        Inl e \<Rightarrow> (Some e, d, w)
      | Inr checkbox \<Rightarrow>
          (if checked env checkbox w then
             (case user_click env checkbox w of
                (Some e, w') \<Rightarrow> (Some e, d, w')
              | (None, w') \<Rightarrow> (None, d\<lparr>lastFormElement := closest_form env checkbox w'\<rparr>, w'))
           else (None, d\<lparr>lastFormElement := closest_form env checkbox w\<rparr>, w)))"

definition rtl_choose ::
  "('e, 'w) RTL \<Rightarrow> string \<Rightarrow> 'e RTLDriver \<Rightarrow> 'w \<Rightarrow> thrown option \<times> 'e RTLDriver \<times> 'w" where
  "rtl_choose env label d w =
     (case findByRole env (container d) ''radio'' label w of
        Inl e \<Rightarrow> (Some e, d, w)
      | Inr radio \<Rightarrow>
          (case user_click env radio w of
             (Some e, w') \<Rightarrow> (Some e, d, w')
           | (None, w') \<Rightarrow> (None, d\<lparr>lastFormElement := closest_form env radio w'\<rparr>, w')))"

definition submit_selector :: string where
  "submit_selector =
     ''button[type='' @ dq @ ''submit'' @ dq @ ''], input[type='' @ dq @ ''submit'' @ dq @ '']''"

definition rtl_submit ::
  "('e, 'w) RTL \<Rightarrow> 'e RTLDriver \<Rightarrow> 'w \<Rightarrow> thrown option \<times> 'e RTLDriver \<times> 'w" where
  "rtl_submit env d w =
     (case lastFormElement d of
        None \<Rightarrow>
          (Some (Error ''submit() called but no form was previously interacted with.''), d, w)
      | Some form \<Rightarrow>
          (case (case queryByRole_submit env form w of
                   Inl e \<Rightarrow> Inl e
                 | Inr (Some b) \<Rightarrow> Inr (Some b)
                 | Inr None \<Rightarrow> querySelector env (Some form) submit_selector w) of
             Inl e \<Rightarrow> (Some e, d, w)
           | Inr (Some submitBtn) \<Rightarrow> (case user_click env submitBtn w of (r, w') \<Rightarrow> (r, d, w'))
           | Inr None \<Rightarrow> (case requestSubmit env form w of (r, w') \<Rightarrow> (r, d, w'))))"

definition rtl_assertHas :: "'e RTLDriver \<Rightarrow> 'w \<Rightarrow> thrown option \<times> 'e RTLDriver \<times> 'w" where
  "rtl_assertHas d w =
     (Some (Error ''assertHas() with CSS selectors is not recommended in RTL. Use assertText() instead.''),
      d, w)"

definition rtl_refuteHas :: "'e RTLDriver \<Rightarrow> 'w \<Rightarrow> thrown option \<times> 'e RTLDriver \<times> 'w" where
  "rtl_refuteHas d w =
     (Some (Error ''refuteHas() with CSS selectors is not recommended in RTL. Use refuteText() instead.''),
      d, w)"

definition rtl_assertText ::
  "('e, 'w) RTL \<Rightarrow> string \<Rightarrow> 'e RTLDriver \<Rightarrow> 'w \<Rightarrow> thrown option \<times> 'e RTLDriver \<times> 'w" where
  "rtl_assertText env text d w =
     (case findByText env (container d) text w of
        Inl e \<Rightarrow> (Some e, d, w)
      | Inr _ \<Rightarrow> (None, d, w))"

definition rtl_refuteText ::
  "('e, 'w) RTL \<Rightarrow> string \<Rightarrow> 'e RTLDriver \<Rightarrow> 'w \<Rightarrow> thrown option \<times> 'e RTLDriver \<times> 'w" where
  "rtl_refuteText env text d w =
     (case queryByText env (container d) text w of
        Inl e \<Rightarrow> (Some e, d, w)
      | Inr (Some el) \<Rightarrow>
          (Some (Error (''Expected NOT to find text '' @ q @ text @ q @ '', but it was present.'')),
           d, w)
      | Inr None \<Rightarrow> (None, d, w))"

definition rtl_assertPath :: "'e RTLDriver \<Rightarrow> 'w \<Rightarrow> thrown option \<times> 'e RTLDriver \<times> 'w" where
  "rtl_assertPath d w =
     (Some (Error ''assertPath() is not available in the RTL adapter (no real URL in JSDOM).''),
      d, w)"

definition rtl_refutePath :: "'e RTLDriver \<Rightarrow> 'w \<Rightarrow> thrown option \<times> 'e RTLDriver \<times> 'w" where
  "rtl_refutePath d w =
     (Some (Error ''refutePath() is not available in the RTL adapter (no real URL in JSDOM).''),
      d, w)"

definition rtl_within ::
  "('e, 'w) RTL \<Rightarrow> string \<Rightarrow> 'e RTLDriver \<Rightarrow> 'w \<Rightarrow> thrown + 'e RTLDriver" where
  "rtl_within env selector d w =
     (let root = (case container d of
                    None \<Rightarrow> None
                  | Some el \<Rightarrow> bound_container env el)
      in case querySelector env root selector w of
           Inl e \<Rightarrow> Inl e
         | Inr None \<Rightarrow> Inl (Error (''within('' @ q @ selector @ q @ ''): element not found''))
         | Inr (Some element) \<Rightarrow> Inr (new_RTLDriver (Some element)))"

text \<open>\<^verbatim>\<open>screen.debug()\<close> prints the document; it changes nothing that is modelled.\<close>

definition rtl_debug :: "'e RTLDriver \<Rightarrow> 'w \<Rightarrow> thrown option \<times> 'e RTLDriver \<times> 'w" where
  "rtl_debug d w = (None, d, w)"

fun rtl_perform ::
  "('e, 'w) RTL \<Rightarrow> op \<Rightarrow> 'e RTLDriver \<Rightarrow> 'w \<Rightarrow> thrown option \<times> 'e RTLDriver \<times> 'w" where
  "rtl_perform env (Visit path) = rtl_visit"
| "rtl_perform env (Click text) = rtl_click env text"
| "rtl_perform env (ClickLink text) = rtl_clickLink env text"
| "rtl_perform env (ClickButton text) = rtl_clickButton env text"
| "rtl_perform env (FillIn label v) = rtl_fillIn env label v"
| "rtl_perform env (SelectOption label option) = rtl_selectOption env label option"
| "rtl_perform env (Check label) = rtl_check env label"
| "rtl_perform env (Uncheck label) = rtl_uncheck env label"
| "rtl_perform env (Choose label) = rtl_choose env label"
| "rtl_perform env Submit = rtl_submit env"
| "rtl_perform env (AssertHas selector opts) = rtl_assertHas"
| "rtl_perform env (RefuteHas selector opts) = rtl_refuteHas"
| "rtl_perform env (AssertText text) = rtl_assertText env text"
| "rtl_perform env (RefuteText text) = rtl_refuteText env text"
| "rtl_perform env (AssertPath path opts) = rtl_assertPath"
| "rtl_perform env (RefutePath path) = rtl_refutePath"
| "rtl_perform env Debug = rtl_debug"

text \<open>The class as a \<^verbatim>\<open>TestDriver\<close>, and \<^verbatim>\<open>createSession()\<close> of rtl/index.ts.\<close>

definition RTLDriver :: "('e, 'w) RTL \<Rightarrow> ('e RTLDriver, 'w) TestDriver" where
  "RTLDriver env = \<lparr>perform = rtl_perform env, scoped = rtl_within env\<rparr>"

definition rtl_createSession :: "'e RTLDriver Session" where
  "rtl_createSession = new_Session (new_RTLDriver None)"

section \<open>playwright/driver.ts: fillIn, submit, assertPath\<close>

text \<open>
  A Playwright locator is a description of a query, built without looking at the page.
\<close>

datatype locator =
    PageScope
  | GetByLabel locator string
  | GetByPlaceholder locator string
  | Locator locator string "locator option"
  | First locator
  | Last locator

text \<open>
  What the adapter imports from Playwright. The page is the world \<open>'w\<close>. \<open>expected_url\<close>
  is the URL that \<^verbatim>\<open>expect(page).toHaveURL\<close> compares the page's URL with when it is
  given a string (the string resolved against the base URL of the context), and
  \<open>toHaveURL_error\<close> is what the expectation throws when it is not met, given the
  expected string or the source of the expected pattern.
\<close>

record 'w Playwright =
  locator_count :: "locator \<Rightarrow> 'w \<Rightarrow> nat"
  locator_fill :: "locator \<Rightarrow> string \<Rightarrow> 'w \<Rightarrow> thrown option \<times> 'w"
  locator_click :: "locator \<Rightarrow> 'w \<Rightarrow> thrown option \<times> 'w"
  locator_press :: "locator \<Rightarrow> string \<Rightarrow> 'w \<Rightarrow> thrown option \<times> 'w"
  page_url :: "'w \<Rightarrow> string"
  expected_url :: "string \<Rightarrow> string"
  toHaveURL_error :: "string \<Rightarrow> 'w \<Rightarrow> thrown"

record PlaywrightDriver =
  scope :: locator
  lastFormLocator :: "locator option"

definition new_PlaywrightDriver :: "locator \<Rightarrow> PlaywrightDriver" where
  "new_PlaywrightDriver sc = \<lparr>scope = sc, lastFormLocator = None\<rparr>"

definition pw_fillIn ::
  "'w Playwright \<Rightarrow> string \<Rightarrow> string \<Rightarrow> PlaywrightDriver \<Rightarrow> 'w \<Rightarrow>
   thrown option \<times> PlaywrightDriver \<times> 'w" where
  "pw_fillIn env label v d w =
     (let byLabel = GetByLabel (scope d) label
      in if locator_count env byLabel w > 0 then
           (case locator_fill env byLabel v w of
              (Some e, w') \<Rightarrow> (Some e, d, w')
            | (None, w') \<Rightarrow>
                (None, d\<lparr>lastFormLocator := Some (Locator (scope d) ''form'' (Some byLabel))\<rparr>, w'))
         else
           (let byPlaceholder = GetByPlaceholder (scope d) label
            in case locator_fill env byPlaceholder v w of
                 (Some e, w') \<Rightarrow> (Some e, d, w')
               | (None, w') \<Rightarrow>
                   (None,
                    d\<lparr>lastFormLocator := Some (Locator (scope d) ''form'' (Some byPlaceholder))\<rparr>,
                    w')))"

definition pw_submit ::
  "'w Playwright \<Rightarrow> PlaywrightDriver \<Rightarrow> 'w \<Rightarrow> thrown option \<times> PlaywrightDriver \<times> 'w" where
  "pw_submit env d w =
     (case lastFormLocator d of
        None \<Rightarrow>
          (Some (Error (''submit() called but no form was previously interacted with. ''
                        @ ''Use fillIn(), selectOption(), check(), uncheck(), or choose() first.'')),
           d, w)
      | Some form \<Rightarrow>
          (let submitBtn = Locator form submit_selector None
           in if locator_count env submitBtn w > 0 then
                (case locator_click env (First submitBtn) w of (r, w') \<Rightarrow> (r, d, w'))
              else
                (case locator_press env (Last (Locator form ''input, textarea, select'' None))
                        ''Enter'' w of
                   (r, w') \<Rightarrow> (r, d, w'))))"














section \<open>A rendered page and a browser page to run the adapters on\<close>

text \<open>
  A document for the RTL adapter. Element 1 is a form that holds the input 2 labelled
  \<^verbatim>\<open>Email\<close>, the checkbox 3 labelled \<^verbatim>\<open>Remember me\<close> and the submit button 6 named
  \<^verbatim>\<open>Log in\<close>; outside any form are the input 4 labelled \<^verbatim>\<open>Search\<close>, with the id
  \<^verbatim>\<open>search\<close>, and the element 5 with the id \<^verbatim>\<open>box\<close> and the text \<^verbatim>\<open>Welcome\<close>,
  which has no element inside. The text \<^verbatim>\<open>##\<close> is not a valid selector. The world is
  the list of the checkboxes that are checked; a click on the checkbox toggles it.
\<close>

definition not_found :: "string \<Rightarrow> thrown" where
  "not_found what = Error (''Unable to find an element: '' @ what)"

definition demo :: "(nat, nat list) RTL" where
  "demo = \<lparr>
     findByText = (\<lambda>c t w. if t = ''Welcome'' then Inr 5 else Inl (not_found t)),
     findByRole = (\<lambda>c r n w. if r = ''button'' \<and> n = ''Log in'' then Inr 6 else Inl (not_found n)),
     findByLabelText = (\<lambda>c l w.
        if l = ''Email'' then Inr 2 else if l = ''Remember me'' then Inr 3
        else if l = ''Search'' then Inr 4 else Inl (not_found l)),
     findByPlaceholderText = (\<lambda>c l w. Inl (not_found l)),
     queryByText = (\<lambda>c t w. if t = ''Welcome'' then Inr (Some 5) else Inr None),
     queryByRole_submit = (\<lambda>f w. Inr None),
     querySelector = (\<lambda>root sel w.
        if sel = ''##'' then Inl (JsError ''SyntaxError'' ''## is not a valid selector'' None)
        else if sel = ''#box'' \<and> root = None then Inr (Some 5)
        else if sel = ''#search'' \<and> root = None then Inr (Some 4)
        else if sel = submit_selector \<and> root = Some 1 then Inr (Some 6) else Inr None),
     closest_form = (\<lambda>e w. if e = 2 \<or> e = 3 \<or> e = 6 then Some 1 else None),
     checked = (\<lambda>e w. e \<in> set w),
     bound_container = (\<lambda>e. None),
     user_click = (\<lambda>e w. (None, if e = 3 then (if 3 \<in> set w then removeAll 3 w else 3 # w) else w)),
     user_clear = (\<lambda>e w. (None, w)),
     user_type = (\<lambda>e v w. (None, w)),
     user_selectOptions = (\<lambda>e v w. (None, w)),
     requestSubmit = (\<lambda>e w. (None, w))\<rparr>"

text \<open>
  A browser page for the Playwright adapter: the world is the URL of the page, the base
  URL is \<^verbatim>\<open>http://localhost\<close>, and one input labelled \<^verbatim>\<open>Email\<close> is on the page.
\<close>

definition browser :: "string Playwright" where
  "browser = \<lparr>
     locator_count = (\<lambda>l w. if l = GetByLabel PageScope ''Email'' then 1 else 0),
     locator_fill = (\<lambda>l v w. if l = GetByLabel PageScope ''Email'' then (None, w)
                              else (Some (not_found ''fill''), w)),
     locator_click = (\<lambda>l w. (Some (not_found ''click''), w)),
     locator_press = (\<lambda>l k w. (None, w)),
     page_url = (\<lambda>w. w),
     expected_url = (\<lambda>u. ''http://localhost'' @ u),
     toHaveURL_error = (\<lambda>u w. Error (''expected URL '' @ u @ '', received '' @ w))\<rparr>"

section \<open>Notions the properties are stated with\<close>

text \<open>
  The driver methods that a call invokes when nothing in it fails: its own, and for
  \<^verbatim>\<open>within\<close> those of the nested chain after it.
\<close>

fun calls_of :: "call \<Rightarrow> invocation list" where
  "calls_of (Do f) = [Called f]"
| "calls_of (Within selector fn) = CalledWithin selector # concat (map calls_of fn)"

text \<open>
  Every closure of the list succeeds when it is run on the driver and the world that the
  closures before it have left; the result is the driver and the world after the last.
\<close>

fun all_succeed ::
  "('d, 'w) TestDriver \<Rightarrow> call list \<Rightarrow> 'd \<Rightarrow> 'w \<Rightarrow> ('d \<times> 'w) option" where
  "all_succeed drv [] d w = Some (d, w)"
| "all_succeed drv (c # cs) d w =
     (case run_action drv c d w of
        (None, d', w', l) \<Rightarrow> all_succeed drv cs d' w'
      | (Some e, d', w', l) \<Rightarrow> None)"

text \<open>
  The indices of the pending steps increase strictly and lie below the next index to
  assign.
\<close>

definition queue_ok :: "'d Session \<Rightarrow> bool" where
  "queue_ok s = sorted_wrt (<) (map index (steps s) @ [stepIndex s])"

section \<open>The queue and its drain\<close>

lemma invoke_fields:
  "stepIndex (invoke c s) = stepIndex s + 1" "driver (invoke c s) = driver s"
  by (cases c rule: invoke.cases;
      simp add: enqueue_def visit_def click_def clickLink_def clickButton_def fillIn_def
        selectOption_def check_def uncheck_def choose'_def submit_def assertHas_def
        refuteHas_def assertText_def refuteText_def assertPath_def refutePath_def within_def
        debug_def Let_def)+

lemma chain_Nil [simp]: "chain [] s = s"
  by (simp add: chain_def)

lemma chain_Cons [simp]: "chain (c # cs) s = chain cs (invoke c s)"
  by (simp add: chain_def)

lemma chain_append: "chain (cs @ cs') s = chain cs' (chain cs s)"
  by (simp add: chain_def)

lemma chain_fields:
  "stepIndex (chain cs s) = stepIndex s + length cs" "driver (chain cs s) = driver s"
  by (induction cs arbitrary: s) (simp_all add: invoke_fields)

lemma map_action_invoke: "map action (steps (invoke c s)) = map action (steps s) @ [c]"
  using steps_invoke [of c s] by auto

lemma map_index_invoke: "map index (steps (invoke c s)) = map index (steps s) @ [stepIndex s]"
  using steps_invoke [of c s] by auto

lemma map_action_chain: "map action (steps (chain cs s)) = map action (steps s) @ cs"
  by (induction cs arbitrary: s) (simp_all add: map_action_invoke)

lemma map_index_chain:
  "map index (steps (chain cs s)) = map index (steps s) @ [stepIndex s ..< stepIndex s + length cs]"
proof (induction cs arbitrary: s)
  case Nil
  then show ?case by simp
next
  case (Cons c cs)
  have "[stepIndex s ..< stepIndex s + Suc (length cs)]
      = stepIndex s # [Suc (stepIndex s) ..< stepIndex s + Suc (length cs)]"
    by (rule upt_conv_Cons) simp
  then show ?case
    by (simp add: Cons.IH map_index_invoke invoke_fields)
qed

lemma length_steps_chain: "length (steps (chain cs s)) = length (steps s) + length cs"
  using arg_cong [OF map_action_chain [of cs s], of length] by simp

lemma run_steps_ok_log:
  assumes "run_steps exec all sts d w = (None, d', w', l)"
    and "\<And>st d w d' w' l. st \<in> set sts \<Longrightarrow> exec (action st) d w = (None, d', w', l) \<Longrightarrow> l = F (action st)"
  shows "l = concat (map F (map action sts))"
  using assms
proof (induction sts arbitrary: d w l)
  case Nil
  then show ?case by simp
next
  case (Cons st sts)
  then show ?case
    by (fastforce split: prod.splits option.splits)
qed

lemma run_action_ok_log:
  "run_action drv c d w = (None, d', w', l) \<Longrightarrow> l = calls_of c"
proof (induction drv c d w arbitrary: d' w' l rule: run_action.induct)
  case (1 drv f d w)
  then show ?case by (auto split: prod.splits)
next
  case (2 drv selector fn d w)
  show ?case
  proof (cases "scoped drv selector d w")
    case (Inl e)
    with "2.prems" show ?thesis by simp
  next
    case (Inr sd)
    obtain r dd ww ll where rs: "run_steps (run_action drv) (steps (chain fn (new_Session sd)))
        (steps (chain fn (new_Session sd))) sd w = (r, dd, ww, ll)"
      by (metis prod_cases4)
    with "2.prems" Inr have r: "r = None" and l: "l = CalledWithin selector # ll"
      by (auto simp: executeSteps_def Let_def chain_fields new_Session_def split: prod.splits)
    have "ll = concat (map calls_of (map action (steps (chain fn (new_Session sd)))))"
      using rs [unfolded r]
    proof (rule run_steps_ok_log)
      fix st d w d' w' l
      assume "st \<in> set (steps (chain fn (new_Session sd)))"
        and "run_action drv (action st) d w = (None, d', w', l)"
      then show "l = calls_of (action st)"
        using "2.IH" [OF Inr refl] by blast
    qed
    then show ?thesis
      by (simp add: l map_action_chain new_Session_def)
  qed
qed

lemma run_steps_split:
  "all_succeed drv (map action pre) d w = Some (d1, w1) \<Longrightarrow>
   run_steps (run_action drv) all (pre @ rest) d w =
     (case run_steps (run_action drv) all rest d1 w1 of
        (r, d', w', l) \<Rightarrow> (r, d', w', concat (map calls_of (map action pre)) @ l))"
proof (induction pre arbitrary: d w)
  case Nil
  then show ?case by (simp split: prod.splits)
next
  case (Cons st pre)
  then show ?case
    by (auto split: prod.splits option.splits dest: run_action_ok_log)
qed


lemma executeSteps_empty:
  "steps s = [] \<Longrightarrow> executeSteps exec s w = (None, s, w, [])"
  by (simp add: executeSteps_def)

lemma steps_executeSteps:
  "executeSteps exec s w = (r, s', w', l) \<Longrightarrow> steps s' = [] \<and> stepIndex s' = stepIndex s"
  by (auto simp: executeSteps_def Let_def split: prod.splits)

lemma trigger_all_succeed:
  assumes "steps s = []"
    and "all_succeed drv cs (driver s) w = Some (d', w')"
  shows "trigger drv (chain cs s) w =
           (None, (chain cs s)\<lparr>steps := [], driver := d'\<rparr>, w', concat (map calls_of cs))"
proof -
  have acts: "map action (steps (chain cs s)) = cs"
    by (simp add: map_action_chain assms(1))
  have "run_steps (run_action drv) (steps (chain cs s)) (steps (chain cs s) @ []) (driver s) w
      = (None, d', w', concat (map calls_of cs) @ [])"
    using run_steps_split [of drv "steps (chain cs s)" "driver s" w d' w' "steps (chain cs s)" "[]"]
      assms(2) acts by simp
  then show ?thesis
    by (simp add: trigger_def executeSteps_def Let_def chain_fields)
qed

lemma nth_steps_chain:
  assumes "steps s = []" and "j < length cs"
  shows "action (steps (chain cs s) ! j) = cs ! j" "index (steps (chain cs s) ! j) = stepIndex s + j"
proof -
  have len: "length (steps (chain cs s)) = length cs"
    by (simp add: length_steps_chain assms(1))
  have "map action (steps (chain cs s)) ! j = cs ! j"
    by (simp add: map_action_chain assms(1))
  then show "action (steps (chain cs s) ! j) = cs ! j"
    using len assms(2) by simp
  have "map index (steps (chain cs s)) ! j = stepIndex s + j"
    using assms by (simp add: map_index_chain)
  then show "index (steps (chain cs s) ! j) = stepIndex s + j"
    using len assms(2) by simp
qed

text \<open>The queue of an engine is always in order: at its creation, after every call and after every trigger.\<close>

lemma queue_ok_new_Session: "queue_ok (new_Session d)"
  by (simp add: queue_ok_def new_Session_def)

lemma queue_ok_invoke: "queue_ok s \<Longrightarrow> queue_ok (invoke c s)"
  by (auto simp: queue_ok_def map_index_invoke invoke_fields sorted_wrt_append)

lemma queue_ok_chain: "queue_ok s \<Longrightarrow> queue_ok (chain cs s)"
  by (induction cs arbitrary: s) (simp_all add: queue_ok_invoke)

lemma queue_ok_trigger:
  "trigger drv s w = (r, s', w', l) \<Longrightarrow> queue_ok s'"
  using steps_executeSteps [of "run_action drv" s w r s' w' l]
  by (simp add: trigger_def queue_ok_def)

lemma run_steps_fail_shape:
  "run_steps exec all sts d w = (Some E, d', w', l) \<Longrightarrow>
   \<exists>st e0. st \<in> set sts \<and> E = StepError st all e0"
proof (induction sts arbitrary: d w l)
  case Nil
  then show ?case by simp
next
  case (Cons st sts)
  then show ?case
    by (fastforce split: prod.splits option.splits)
qed

lemma run_action_Within_Inl:
  "scoped drv selector d w = Inl e \<Longrightarrow>
   run_action drv (Within selector fn) d w = (Some e, d, w, [CalledWithin selector])"
  by simp

lemma run_action_Within_Inr:
  "scoped drv selector d w = Inr sd \<Longrightarrow>
   run_action drv (Within selector fn) d w =
     (case trigger drv (chain fn (new_Session sd)) w of
        (r, s', w', l) \<Rightarrow> (r, d, w', CalledWithin selector # l))"
  by (simp add: trigger_def)

lemma trigger_single:
  assumes "steps s = []"
  shows "trigger drv (invoke c s) w =
     (case run_action drv c (driver s) w of
        (None, d', w', l) \<Rightarrow> (None, (invoke c s)\<lparr>steps := [], driver := d'\<rparr>, w', l)
      | (Some e, d', w', l) \<Rightarrow>
          (Some (StepError (hd (steps (invoke c s))) (steps (invoke c s)) e),
           (invoke c s)\<lparr>steps := [], driver := d'\<rparr>, w', l))"
proof -
  obtain n where st: "steps (invoke c s) = [\<lparr>name = n, action = c, index = stepIndex s\<rparr>]"
    using steps_invoke [of c s] assms by auto
  show ?thesis
    by (simp add: trigger_def executeSteps_def Let_def st invoke_fields split: prod.splits option.splits)
qed

section \<open>The pattern of assertPath\<close>






section \<open>The serialisation of query parameters is one to one\<close>























section \<open>Submitting after a fill on the Playwright adapter\<close>

lemma pw_fillIn_success:
  "pw_fillIn penv label v pd pw = (None, d1, w1) \<Longrightarrow>
   \<exists>target. (target = GetByLabel (scope pd) label \<or> target = GetByPlaceholder (scope pd) label)
     \<and> d1 = pd\<lparr>lastFormLocator := Some (Locator (scope pd) ''form'' (Some target))\<rparr>"
  by (cases "locator_count penv (GetByLabel (scope pd) label) pw > 0")
     (auto simp: pw_fillIn_def Let_def split: prod.splits option.splits)

lemma pw_submit_with_form:
  "lastFormLocator d = Some form \<Longrightarrow>
   pw_submit penv d w =
     (if locator_count penv (Locator form submit_selector None) w > 0
      then (case locator_click penv (First (Locator form submit_selector None)) w of
              (r, w') \<Rightarrow> (r, d, w'))
      else (case locator_press penv (Last (Locator form ''input, textarea, select'' None))
                   ''Enter'' w of
              (r, w') \<Rightarrow> (r, d, w')))"
  by (simp add: pw_submit_def Let_def)

lemma rtl_within_top:
  "container rd = None \<Longrightarrow>
   scoped (RTLDriver env) selector rd rw =
     (case querySelector env None selector rw of
        Inl e \<Rightarrow> Inl e
      | Inr None \<Rightarrow> Inl (Error (''within('' @ q @ selector @ q @ ''): element not found''))
      | Inr (Some element) \<Rightarrow> Inr (new_RTLDriver (Some element)))"
  by (simp add: RTLDriver_def rtl_within_def)

lemmas session_defs =
  new_Session_def new_RTLDriver_def enqueue_def visit_def click_def clickLink_def
  clickButton_def fillIn_def selectOption_def check_def uncheck_def choose'_def submit_def
  assertHas_def refuteHas_def assertText_def refuteText_def assertPath_def refutePath_def
  within_def debug_def

lemmas rtl_defs =
  RTLDriver_def rtl_visit_def rtl_click_def rtl_clickLink_def rtl_clickButton_def rtl_fillIn_def
  rtl_selectOption_def rtl_check_def rtl_uncheck_def rtl_choose_def rtl_submit_def
  rtl_assertHas_def rtl_refuteHas_def rtl_assertText_def rtl_refuteText_def rtl_assertPath_def
  rtl_refutePath_def rtl_within_def rtl_debug_def demo_def not_found_def Error_def
  submit_selector_def dq_def

section \<open>Properties claimed by the specification\<close>



text \<open>
  C2. When the closures of the calls \<open>pre\<close> succeed and the closure of the next call
  \<open>c\<close> fails with \<open>e\<close>, the trigger rejects with the \<^verbatim>\<open>StepError\<close> of that step and
  the snapshot, whose \<^verbatim>\<open>cause\<close> is \<open>e\<close> itself; the driver methods called are those of
  \<open>pre\<close> and what \<open>c\<close> called before it failed, nothing of \<open>post\<close>; and the message
  of the error that is raised lists every step of the snapshot in order, the steps
  before the failed one as \<^verbatim>\<open>[ok]\<close>, the failed one as \<^verbatim>\<open>>>> [FAILED]\<close> and the
  steps after it as \<^verbatim>\<open>[skipped]\<close>.
\<close>

theorem first_failure_halts:
  fixes drv :: "('d, 'w) TestDriver" and post :: "call list"
  assumes "steps s = []"
    and "all_succeed drv pre (driver s) w = Some (d1, w1)"
    and "run_action drv c d1 w1 = (Some e, d2, w2, l)"
  defines "s' \<equiv> chain (pre @ c # post) s"
  defines "snapshot \<equiv> steps s'"
  defines "k \<equiv> length pre"
  shows "trigger drv s' w =
           (Some (StepError (snapshot ! k) snapshot e), s'\<lparr>steps := [], driver := d2\<rparr>, w2,
            concat (map calls_of pre) @ l)
         \<and> err_cause (StepError (snapshot ! k) snapshot e) = Some e
         \<and> map action snapshot = pre @ c # post
         \<and> (\<forall>j < length snapshot.
              stepLine (snapshot ! k) (snapshot ! j) =
                (if j < k then ''    [ok] ''
                 else if j = k then ''>>> [FAILED] ''
                 else ''    [skipped] '') @ name (snapshot ! j))
         \<and> err_message (StepError (snapshot ! k) snapshot e) =
             ''feather-testing: Step '' @ digits (index (snapshot ! k) + 1) @ '' of ''
               @ digits (length pre + 1 + length post) @ '' failed'' @ nl @ nl
             @ ''Failed at: '' @ name (snapshot ! k) @ nl
             @ ''Cause: '' @ causeMessage e @ nl @ nl
             @ ''Chain:'' @ nl
             @ join nl (map (\<lambda>j. (if j < k then ''    [ok] ''
                                    else if j = k then ''>>> [FAILED] ''
                                    else ''    [skipped] '') @ name (snapshot ! j))
                          [0 ..< length pre + 1 + length post])
             @ nl"
proof -
  have acts: "map action snapshot = pre @ c # post"
    by (simp add: snapshot_def s'_def map_action_chain assms(1))
  have len: "length snapshot = length pre + Suc (length post)"
    using arg_cong [OF acts, of length] by simp
  have split: "snapshot = take k snapshot @ snapshot ! k # drop (Suc k) snapshot"
    using len by (simp add: k_def id_take_nth_drop)
  have pre: "map action (take k snapshot) = pre"
    using arg_cong [OF acts, of "take k"] by (simp add: k_def take_map)
  have c: "action (snapshot ! k) = c"
    using arg_cong [OF acts, of "\<lambda>xs. xs ! k"] len by (simp add: k_def nth_append)
  have "run_steps (run_action drv) snapshot (take k snapshot @ snapshot ! k # drop (Suc k) snapshot)
          (driver s) w
      = (Some (StepError (snapshot ! k) snapshot e), d2, w2, concat (map calls_of pre) @ l)"
    using run_steps_split [of drv "take k snapshot" "driver s" w d1 w1 snapshot
        "snapshot ! k # drop (Suc k) snapshot"] assms(2,3) pre c
    by simp
  then have run: "run_steps (run_action drv) snapshot snapshot (driver s) w
      = (Some (StepError (snapshot ! k) snapshot e), d2, w2, concat (map calls_of pre) @ l)"
    using split by simp
  have 1: "trigger drv s' w =
      (Some (StepError (snapshot ! k) snapshot e), s'\<lparr>steps := [], driver := d2\<rparr>, w2,
       concat (map calls_of pre) @ l)"
    using run by (simp add: trigger_def executeSteps_def Let_def snapshot_def s'_def chain_fields)
  have idx: "index (snapshot ! j) = stepIndex s + j" if "j < length snapshot" for j
    using that nth_steps_chain(2) [OF assms(1), of j "pre @ c # post"] len
    by (simp add: snapshot_def s'_def)
  have 4: "stepLine (snapshot ! k) (snapshot ! j) =
      (if j < k then ''    [ok] '' else if j = k then ''>>> [FAILED] '' else ''    [skipped] '')
        @ name (snapshot ! j)" if j: "j < length snapshot" for j
  proof -
    have k: "k < length snapshot" using len by (simp add: k_def)
    have neq: "snapshot ! j \<noteq> snapshot ! k" if "j \<noteq> k"
      using idx [OF j] idx [OF k] that by auto
    show ?thesis
      using idx [OF j] idx [OF k] neq
      by (auto simp: stepLine_def status_def Let_def)
  qed
  have "map (stepLine (snapshot ! k)) snapshot
      = map (\<lambda>j. stepLine (snapshot ! k) (snapshot ! j)) [0 ..< length snapshot]"
    by (rule nth_equalityI) simp_all
  also have "\<dots> = map (\<lambda>j. (if j < k then ''    [ok] ''
                                else if j = k then ''>>> [FAILED] ''
                                else ''    [skipped] '') @ name (snapshot ! j))
                      [0 ..< length snapshot]"
    by (rule map_cong [OF refl]) (simp add: 4)
  finally have lines: "map (stepLine (snapshot ! k)) snapshot
      = map (\<lambda>j. (if j < k then ''    [ok] ''
                    else if j = k then ''>>> [FAILED] ''
                    else ''    [skipped] '') @ name (snapshot ! j))
          [0 ..< length pre + 1 + length post]"
    by (simp add: len)
  have 5: "err_message (StepError (snapshot ! k) snapshot e) =
      ''feather-testing: Step '' @ digits (index (snapshot ! k) + 1) @ '' of ''
        @ digits (length pre + 1 + length post) @ '' failed'' @ nl @ nl
      @ ''Failed at: '' @ name (snapshot ! k) @ nl
      @ ''Cause: '' @ causeMessage e @ nl @ nl
      @ ''Chain:'' @ nl
      @ join nl (map (\<lambda>j. (if j < k then ''    [ok] ''
                             else if j = k then ''>>> [FAILED] ''
                             else ''    [skipped] '') @ name (snapshot ! j))
                   [0 ..< length pre + 1 + length post])
      @ nl"
    unfolding StepError_def StepError_message_def stepList_def lines
    by (simp add: len)
  have 2: "err_cause (StepError (snapshot ! k) snapshot e) = Some e"
    by (simp add: StepError_def)
  show ?thesis
    using 1 2 acts 4 5 by (intro conjI allI impI) assumption+
qed

theorem first_failure_halts_witness:
  "(let s' = chain [Do (AssertText ''Welcome''), Do (Click ''Missing''), Do (Check ''Remember me'')]
               (new_Session (new_RTLDriver None));
        snapshot = steps s'
    in trigger (RTLDriver demo) s' []
         = (Some (StepError (snapshot ! 1) snapshot (not_found ''Missing'')),
            s'\<lparr>steps := []\<rparr>, [], [Called (AssertText ''Welcome''), Called (Click ''Missing'')])
       \<and> err_cause (StepError (snapshot ! 1) snapshot (not_found ''Missing''))
           = Some (not_found ''Missing'')
       \<and> map (stepLine (snapshot ! 1)) snapshot
           = [''    [ok] '' @ name (snapshot ! 0), ''>>> [FAILED] '' @ name (snapshot ! 1),
              ''    [skipped] '' @ name (snapshot ! 2)]
       \<and> err_message (StepError (snapshot ! 1) snapshot (not_found ''Missing''))
           = ''feather-testing: Step 2 of 3 failed'' @ nl @ nl
             @ ''Failed at: click('' @ q @ ''Missing'' @ q @ '')'' @ nl
             @ ''Cause: Unable to find an element: Missing'' @ nl @ nl
             @ ''Chain:'' @ nl
             @ ''    [ok] assertText('' @ q @ ''Welcome'' @ q @ '')'' @ nl
             @ ''>>> [FAILED] click('' @ q @ ''Missing'' @ q @ '')'' @ nl
             @ ''    [skipped] check('' @ q @ ''Remember me'' @ q @ '')'' @ nl)"
proof -
  have h1: "steps (new_Session (new_RTLDriver (None :: nat option))) = []"
    by (simp add: new_Session_def)
  have h2: "all_succeed (RTLDriver demo) [Do (AssertText ''Welcome'')]
      (driver (new_Session (new_RTLDriver None))) []
    = Some (new_RTLDriver None, [])"
    by (simp add: session_defs rtl_defs)
  have h3: "run_action (RTLDriver demo) (Do (Click ''Missing'')) (new_RTLDriver None) []
    = (Some (not_found ''Missing''), new_RTLDriver None, [], [Called (Click ''Missing'')])"
    by (simp add: session_defs rtl_defs)
  from first_failure_halts [OF h1 h2 h3, where post = "[Do (Check ''Remember me'')]"]
  show ?thesis
    by (simp add: session_defs Let_def nth_Cons' upt_rec All_less_Suc digits.simps
        not_found_def Error_def del: upt_Suc)
qed

text \<open>
  C3. After a trigger that drained an engine to completion, the calls \<open>cs\<close> queued next
  are all that is pending: the next trigger's snapshot holds exactly their closures, and
  when they succeed only their driver methods are called. Their indices go on from where
  the engine's counter stood, \<open>stepIndex s\<close>, \<open>stepIndex s + 1\<close>, ..., above every index
  of the drain before, and the counter is never set back.
\<close>

theorem retrigger_runs_new_steps_only:
  fixes drv :: "('d, 'w) TestDriver" and cs :: "call list"
  assumes "trigger drv s w = (None, s1, w1, l1)"
  defines "s2 \<equiv> chain cs s1"
  shows "map action (steps s2) = cs
         \<and> map index (steps s2) = [stepIndex s ..< stepIndex s + length cs]
         \<and> stepIndex s2 = stepIndex s + length cs
         \<and> (queue_ok s \<longrightarrow> (\<forall>i \<in> set (map index (steps s)). \<forall>j \<in> set (map index (steps s2)). i < j))
         \<and> (\<forall>d2 w2. all_succeed drv cs (driver s1) w1 = Some (d2, w2) \<longrightarrow>
               trigger drv s2 w1 =
                 (None, s2\<lparr>steps := [], driver := d2\<rparr>, w2, concat (map calls_of cs)))"
proof -
  have s1: "steps s1 = []" "stepIndex s1 = stepIndex s"
    using steps_executeSteps [OF assms(1) [unfolded trigger_def]] by simp_all
  have a: "map action (steps s2) = cs"
    by (simp add: s2_def map_action_chain s1)
  have b: "map index (steps s2) = [stepIndex s ..< stepIndex s + length cs]"
    by (simp add: s2_def map_index_chain s1)
  have c: "stepIndex s2 = stepIndex s + length cs"
    by (simp add: s2_def chain_fields s1)
  have d: "\<forall>i \<in> set (map index (steps s)). \<forall>j \<in> set (map index (steps s2)). i < j" if "queue_ok s"
    using that unfolding b queue_ok_def by (auto simp: sorted_wrt_append)
  have e: "trigger drv s2 w1 = (None, s2\<lparr>steps := [], driver := d2\<rparr>, w2, concat (map calls_of cs))"
    if "all_succeed drv cs (driver s1) w1 = Some (d2, w2)" for d2 w2
    using trigger_all_succeed [OF s1(1) that] by (simp add: s2_def)
  show ?thesis
    using a b c d e by blast
qed

theorem retrigger_runs_new_steps_only_witness:
  "map index (steps (chain [Do (Uncheck ''Remember me''), Do Submit]
      \<lparr>steps = [], stepIndex = 2, driver = \<lparr>container = None, lastFormElement = Some (1::nat)\<rparr>\<rparr>))
     = [2, 3]
   \<and> map index (steps (chain [Do (AssertText ''Welcome''), Do (Check ''Remember me'')]
         (new_Session (new_RTLDriver (None :: nat option))))) = [0, 1]
   \<and> trigger (RTLDriver demo)
        (chain [Do (Uncheck ''Remember me''), Do Submit]
           \<lparr>steps = [], stepIndex = 2, driver = \<lparr>container = None, lastFormElement = Some 1\<rparr>\<rparr>) [3]
     = (None,
        \<lparr>steps = [], stepIndex = 4, driver = \<lparr>container = None, lastFormElement = Some 1\<rparr>\<rparr>,
        [], [Called (Uncheck ''Remember me''), Called Submit])"
proof -
  have h1: "trigger (RTLDriver demo)
      (chain [Do (AssertText ''Welcome''), Do (Check ''Remember me'')]
         (new_Session (new_RTLDriver None))) []
    = (None, \<lparr>steps = [], stepIndex = 2, driver = \<lparr>container = None, lastFormElement = Some 1\<rparr>\<rparr>,
       [3], [Called (AssertText ''Welcome''), Called (Check ''Remember me'')])"
    by (simp add: trigger_def executeSteps_def session_defs rtl_defs)
  have h2: "all_succeed (RTLDriver demo) [Do (Uncheck ''Remember me''), Do Submit]
      \<lparr>container = None, lastFormElement = Some 1\<rparr> [3]
    = Some (\<lparr>container = None, lastFormElement = Some 1\<rparr>, [])"
    by (simp add: session_defs rtl_defs)
  have h3: "queue_ok (chain [Do (AssertText ''Welcome''), Do (Check ''Remember me'')]
         (new_Session (new_RTLDriver (None :: nat option))))"
    by (rule queue_ok_chain [OF queue_ok_new_Session])
  from retrigger_runs_new_steps_only [OF h1, where cs = "[Do (Uncheck ''Remember me''), Do Submit]"] h2 h3
  show ?thesis
    by (simp add: session_defs upt_rec)
qed

text \<open>
  C4. The header of the report is built from \<open>index failedStep + 1\<close> and the length of
  the snapshot. The index is counted over the life of the engine, so on a second drain
  the header of this run reads \<^verbatim>\<open>Step 3 of 2 failed\<close>: the first chain of two calls
  succeeds, the second chain of two calls fails at its first call.
\<close>

theorem rendered_position_exceeds_total:
  "fst (trigger (RTLDriver demo)
      (chain [Do (AssertText ''Welcome''), Do (Check ''Remember me'')]
         (new_Session (new_RTLDriver None))) []) = None
   \<and> map_option (take 35 \<circ> err_message)
       (fst (trigger (RTLDriver demo)
          (chain [Do (Click ''Missing''), Do (AssertText ''Welcome'')]
             (fst (snd (trigger (RTLDriver demo)
                (chain [Do (AssertText ''Welcome''), Do (Check ''Remember me'')]
                   (new_Session (new_RTLDriver None))) []))))
          (fst (snd (snd (trigger (RTLDriver demo)
                (chain [Do (AssertText ''Welcome''), Do (Check ''Remember me'')]
                   (new_Session (new_RTLDriver None))) []))))))
     = Some ''feather-testing: Step 3 of 2 failed''"
  by (simp add: trigger_def executeSteps_def session_defs rtl_defs StepError_def
      StepError_message_def digits.simps)

text \<open>
  C10. Whatever the outcome of a trigger, also a rejection at some step, the queue is
  empty afterwards: the steps that were skipped are gone. Triggering again at once
  resolves with no value, calls no driver method and leaves engine and world as they are.
\<close>

theorem drain_empties_queue:
  fixes drv :: "('d, 'w) TestDriver"
  assumes "trigger drv s w = (r, s', w', l)"
  shows "steps s' = [] \<and> trigger drv s' w' = (None, s', w', [])"
  using steps_executeSteps [OF assms [unfolded trigger_def]]
  by (simp add: trigger_def executeSteps_empty)

theorem drain_empties_queue_witness:
  "fst (trigger (RTLDriver demo)
     (chain [Do (AssertText ''Welcome''), Do (Click ''Missing''), Do (Check ''Remember me'')]
        (new_Session (new_RTLDriver None))) []) \<noteq> None
   \<and> steps (fst (snd (trigger (RTLDriver demo)
     (chain [Do (AssertText ''Welcome''), Do (Click ''Missing''), Do (Check ''Remember me'')]
        (new_Session (new_RTLDriver None))) []))) = []
   \<and> trigger (RTLDriver demo)
       (fst (snd (trigger (RTLDriver demo)
         (chain [Do (AssertText ''Welcome''), Do (Click ''Missing''), Do (Check ''Remember me'')]
            (new_Session (new_RTLDriver None))) [])))
       (fst (snd (snd (trigger (RTLDriver demo)
         (chain [Do (AssertText ''Welcome''), Do (Click ''Missing''), Do (Check ''Remember me'')]
            (new_Session (new_RTLDriver None))) []))))
     = (None,
        fst (snd (trigger (RTLDriver demo)
         (chain [Do (AssertText ''Welcome''), Do (Click ''Missing''), Do (Check ''Remember me'')]
            (new_Session (new_RTLDriver None))) [])),
        fst (snd (snd (trigger (RTLDriver demo)
         (chain [Do (AssertText ''Welcome''), Do (Click ''Missing''), Do (Check ''Remember me'')]
            (new_Session (new_RTLDriver None))) []))),
        [])"
proof -
  have failed: "fst (trigger (RTLDriver demo)
     (chain [Do (AssertText ''Welcome''), Do (Click ''Missing''), Do (Check ''Remember me'')]
        (new_Session (new_RTLDriver None))) []) \<noteq> None"
    by (simp add: trigger_def executeSteps_def session_defs rtl_defs)
  have h: "trigger (RTLDriver demo) s w
      = (fst (trigger (RTLDriver demo) s w), fst (snd (trigger (RTLDriver demo) s w)),
         fst (snd (snd (trigger (RTLDriver demo) s w))), snd (snd (snd (trigger (RTLDriver demo) s w))))"
    for s :: "nat RTLDriver Session" and w
    by simp
  show ?thesis
    using failed drain_empties_queue [OF h] by blast
qed

text \<open>
  C8. On the RTL adapter the steps \<^verbatim>\<open>visit\<close>, \<^verbatim>\<open>assertPath\<close> and \<^verbatim>\<open>refutePath\<close> fail
  for every argument, every driver and every document, each with one fixed error, and
  leave driver and document as they were.
\<close>

theorem rtl_unsupported_operations:
  "run_action (RTLDriver env) (Do (Visit path)) d w =
     (Some (Error ''visit() is not available in the RTL adapter. Render the desired component directly.''),
      d, w, [Called (Visit path)])
   \<and> run_action (RTLDriver env) (Do (AssertPath path opts)) d w =
     (Some (Error ''assertPath() is not available in the RTL adapter (no real URL in JSDOM).''),
      d, w, [Called (AssertPath path opts)])
   \<and> run_action (RTLDriver env) (Do (RefutePath path)) d w =
     (Some (Error ''refutePath() is not available in the RTL adapter (no real URL in JSDOM).''),
      d, w, [Called (RefutePath path)])"
  by (simp add: RTLDriver_def rtl_visit_def rtl_assertPath_def rtl_refutePath_def)

theorem rtl_unsupported_operations_witness:
  "fst (run_action (RTLDriver demo) (Do (Visit ''/'')) (new_RTLDriver None) [])
     = Some (Error ''visit() is not available in the RTL adapter. Render the desired component directly.'')
   \<and> fst (run_action (RTLDriver demo) (Do (Visit ''/'')) \<lparr>container = Some 5, lastFormElement = Some 1\<rparr> [3])
     = Some (Error ''visit() is not available in the RTL adapter. Render the desired component directly.'')"
  using rtl_unsupported_operations [of demo "''/''" "new_RTLDriver None" "[]"]
    rtl_unsupported_operations [of demo "''/''" "\<lparr>container = Some 5, lastFormElement = Some 1\<rparr>" "[3]"]
  by simp

text \<open>
  C9. On the RTL adapter, when the label resolves to a control: \<^verbatim>\<open>check\<close> on a checked
  control clicks nothing, leaves the document as it is and the control checked, and
  clicks exactly when the control is not checked; \<^verbatim>\<open>uncheck\<close> does the same with the
  two states exchanged.
\<close>

theorem check_is_idempotent:
  assumes "findByLabelText env (container d) label w = Inr cb"
  shows "(checked env cb w \<longrightarrow>
            rtl_check env label d w = (None, d\<lparr>lastFormElement := closest_form env cb w\<rparr>, w)
            \<and> checked env cb (snd (snd (rtl_check env label d w))))
       \<and> (\<not> checked env cb w \<longrightarrow>
            rtl_check env label d w =
              (case user_click env cb w of
                 (Some e, w') \<Rightarrow> (Some e, d, w')
               | (None, w') \<Rightarrow> (None, d\<lparr>lastFormElement := closest_form env cb w'\<rparr>, w')))
       \<and> (\<not> checked env cb w \<longrightarrow>
            rtl_uncheck env label d w = (None, d\<lparr>lastFormElement := closest_form env cb w\<rparr>, w)
            \<and> \<not> checked env cb (snd (snd (rtl_uncheck env label d w))))
       \<and> (checked env cb w \<longrightarrow>
            rtl_uncheck env label d w =
              (case user_click env cb w of
                 (Some e, w') \<Rightarrow> (Some e, d, w')
               | (None, w') \<Rightarrow> (None, d\<lparr>lastFormElement := closest_form env cb w'\<rparr>, w')))"
  using assms by (simp add: rtl_check_def rtl_uncheck_def)

theorem check_is_idempotent_witness:
  "rtl_check demo ''Remember me'' (new_RTLDriver None) [] = (None, \<lparr>container = None, lastFormElement = Some 1\<rparr>, [3])
   \<and> rtl_check demo ''Remember me'' \<lparr>container = None, lastFormElement = Some 1\<rparr> [3]
       = (None, \<lparr>container = None, lastFormElement = Some 1\<rparr>, [3])
   \<and> rtl_uncheck demo ''Remember me'' (new_RTLDriver None) []
       = (None, \<lparr>container = None, lastFormElement = Some 1\<rparr>, [])"
proof -
  have h1: "findByLabelText demo (container (new_RTLDriver None)) ''Remember me'' [] = Inr 3"
    by (simp add: demo_def)
  have h2: "findByLabelText demo (container \<lparr>container = None, lastFormElement = Some 1\<rparr>) ''Remember me'' [3] = Inr 3"
    by (simp add: demo_def)
  from check_is_idempotent [OF h1] check_is_idempotent [OF h2]
  show ?thesis
    by (simp add: demo_def new_RTLDriver_def)
qed

text \<open>
  C5. On the RTL adapter, with the driver of the top-level session: the closure of
  \<^verbatim>\<open>within(selector, fn)\<close> fails exactly when the selector finds no element in the
  document, whatever \<^verbatim>\<open>fn\<close> would queue, or when \<^verbatim>\<open>querySelector\<close> throws because the
  selector is not a valid one, or when the nested chain fails. For every driver: when
  the nested chain fails, what the step fails with is the nested drain's own
  \<^verbatim>\<open>StepError\<close>, which carries the error of the nested step as its \<^verbatim>\<open>cause\<close>; and the
  enclosing chain, triggered with this one step, fails exactly when the closure does,
  with what the closure threw as the \<^verbatim>\<open>cause\<close> of its report.
\<close>

theorem within_step_failure:
  fixes env :: "('e, 'v) RTL" and drv :: "('d, 'w) TestDriver" and fn :: "call list"
  shows
    "(container rd = None \<longrightarrow>
        ((fst (run_action (RTLDriver env) (Within selector fn) rd rw) \<noteq> None)
           = (querySelector env None selector rw = Inr None
              \<or> (\<exists>e. querySelector env None selector rw = Inl e)
              \<or> (\<exists>el. querySelector env None selector rw = Inr (Some el)
                    \<and> fst (trigger (RTLDriver env)
                             (chain fn (new_Session (new_RTLDriver (Some el)))) rw) \<noteq> None)))
        \<and> (querySelector env None selector rw = Inr None \<longrightarrow>
              fst (run_action (RTLDriver env) (Within selector fn) rd rw)
                = Some (Error (''within('' @ q @ selector @ q @ ''): element not found'')))
        \<and> (\<forall>e. querySelector env None selector rw = Inl e \<longrightarrow>
              fst (run_action (RTLDriver env) (Within selector fn) rd rw) = Some e))
     \<and> (\<forall>sd E. scoped drv selector d w = Inr sd
            \<and> fst (trigger drv (chain fn (new_Session sd)) w) = Some E \<longrightarrow>
           fst (run_action drv (Within selector fn) d w) = Some E
           \<and> (\<exists>st e0. st \<in> set (steps (chain fn (new_Session sd)))
                 \<and> E = StepError st (steps (chain fn (new_Session sd))) e0
                 \<and> err_cause E = Some e0))
     \<and> (\<forall>s. steps s = [] \<and> driver s = d \<longrightarrow>
           (fst (trigger drv (within selector fn s) w) \<noteq> None)
             = (fst (run_action drv (Within selector fn) d w) \<noteq> None)
           \<and> (\<forall>X. fst (run_action drv (Within selector fn) d w) = Some X \<longrightarrow>
                 Option.bind (fst (trigger drv (within selector fn s) w)) err_cause = Some X))"
proof -
  have 1: "(fst (run_action (RTLDriver env) (Within selector fn) rd rw) \<noteq> None)
           = (querySelector env None selector rw = Inr None
              \<or> (\<exists>e. querySelector env None selector rw = Inl e)
              \<or> (\<exists>el. querySelector env None selector rw = Inr (Some el)
                    \<and> fst (trigger (RTLDriver env)
                             (chain fn (new_Session (new_RTLDriver (Some el)))) rw) \<noteq> None))"
    if top: "container rd = None"
  proof (cases "querySelector env None selector rw")
    case (Inl e)
    then show ?thesis
      using run_action_Within_Inl [of "RTLDriver env" selector rd rw e fn]
      by (simp add: rtl_within_top [OF top] del: run_action.simps)
  next
    case (Inr r)
    show ?thesis
    proof (cases r)
      case None
      then show ?thesis
        using Inr run_action_Within_Inl [of "RTLDriver env" selector rd rw _ fn]
        by (simp add: rtl_within_top [OF top] del: run_action.simps)
    next
      case (Some el)
      then show ?thesis
        using Inr run_action_Within_Inr [of "RTLDriver env" selector rd rw "new_RTLDriver (Some el)" fn]
        by (simp add: rtl_within_top [OF top] split: prod.splits del: run_action.simps)
    qed
  qed
  have 2: "fst (run_action (RTLDriver env) (Within selector fn) rd rw)
                = Some (Error (''within('' @ q @ selector @ q @ ''): element not found''))"
    if "container rd = None" "querySelector env None selector rw = Inr None"
    using that run_action_Within_Inl [of "RTLDriver env" selector rd rw _ fn]
    by (simp add: rtl_within_top del: run_action.simps)
  have 3: "fst (run_action (RTLDriver env) (Within selector fn) rd rw) = Some e"
    if "container rd = None" "querySelector env None selector rw = Inl e" for e
    using that run_action_Within_Inl [of "RTLDriver env" selector rd rw e fn]
    by (simp add: rtl_within_top del: run_action.simps)
  have 4: "fst (run_action drv (Within selector fn) d w) = Some E
           \<and> (\<exists>st e0. st \<in> set (steps (chain fn (new_Session sd)))
                 \<and> E = StepError st (steps (chain fn (new_Session sd))) e0
                 \<and> err_cause E = Some e0)"
    if sc: "scoped drv selector d w = Inr sd"
      and E: "fst (trigger drv (chain fn (new_Session sd)) w) = Some E" for sd E
  proof -
    obtain dd ww ll where "run_steps (run_action drv) (steps (chain fn (new_Session sd)))
        (steps (chain fn (new_Session sd))) (driver (chain fn (new_Session sd))) w = (Some E, dd, ww, ll)"
      using E by (auto simp: trigger_def executeSteps_def Let_def split: prod.splits)
    from run_steps_fail_shape [OF this] obtain st e0 where
      "st \<in> set (steps (chain fn (new_Session sd)))"
      "E = StepError st (steps (chain fn (new_Session sd))) e0"
      by blast
    moreover have "fst (run_action drv (Within selector fn) d w) = Some E"
      using E by (auto simp: run_action_Within_Inr [OF sc] split: prod.splits simp del: run_action.simps)
    ultimately show ?thesis
      by (auto simp: StepError_def)
  qed
  have 5: "(fst (trigger drv (within selector fn s) w) \<noteq> None)
             = (fst (run_action drv (Within selector fn) d w) \<noteq> None)
           \<and> (\<forall>X. fst (run_action drv (Within selector fn) d w) = Some X \<longrightarrow>
                 Option.bind (fst (trigger drv (within selector fn s) w)) err_cause = Some X)"
    if "steps s = []" "driver s = d" for s
    using trigger_single [OF that(1), of drv "Within selector fn" w] that(2)
    by (auto simp: StepError_def split: prod.splits option.splits simp del: run_action.simps)
  show ?thesis
    using 1 2 3 4 5 by blast
qed

theorem within_step_failure_witness:
  "fst (run_action (RTLDriver demo) (Within ''#nope'' [Do (AssertText ''Welcome'')])
          (new_RTLDriver None) [])
     = Some (Error (''within('' @ q @ ''#nope'' @ q @ ''): element not found''))
   \<and> fst (run_action (RTLDriver demo) (Within ''#box'' [Do (Click ''Missing'')])
          (new_RTLDriver None) [])
     = Some (StepError \<lparr>name = ''click('' @ q @ ''Missing'' @ q @ '')'', action = Do (Click ''Missing''), index = 0\<rparr>
               [\<lparr>name = ''click('' @ q @ ''Missing'' @ q @ '')'', action = Do (Click ''Missing''), index = 0\<rparr>]
               (not_found ''Missing''))"
proof -
  have top: "container (new_RTLDriver (None :: nat option)) = None"
    by (simp add: new_RTLDriver_def)
  have h1: "querySelector demo None ''#nope'' [] = Inr None"
    by (simp add: demo_def submit_selector_def)
  have h2: "scoped (RTLDriver demo) ''#box'' (new_RTLDriver None) [] = Inr (new_RTLDriver (Some 5))"
    by (simp add: RTLDriver_def rtl_within_def new_RTLDriver_def demo_def)
  have h3: "fst (trigger (RTLDriver demo) (chain [Do (Click ''Missing'')] (new_Session (new_RTLDriver (Some 5)))) [])
      = Some (StepError \<lparr>name = ''click('' @ q @ ''Missing'' @ q @ '')'', action = Do (Click ''Missing''), index = 0\<rparr>
               [\<lparr>name = ''click('' @ q @ ''Missing'' @ q @ '')'', action = Do (Click ''Missing''), index = 0\<rparr>]
               (not_found ''Missing''))"
    by (simp add: trigger_def executeSteps_def session_defs rtl_defs)
  note a = within_step_failure [where env = demo and selector = "''#nope''"
      and fn = "[Do (AssertText ''Welcome'')]" and rd = "new_RTLDriver None" and rw = "[]",
      THEN conjunct1, rule_format, OF top, THEN conjunct2, THEN conjunct1, rule_format, OF h1]
  note b = within_step_failure [where drv = "RTLDriver demo" and selector = "''#box''"
      and fn = "[Do (Click ''Missing'')]" and d = "new_RTLDriver None" and w = "[]",
      THEN conjunct2, THEN conjunct1, rule_format, OF conjI [OF h2 h3],
      THEN conjunct1]
  from a b show ?thesis by simp
qed

text \<open>
  On the page above. \<^verbatim>\<open>within('#box', s => s.click('Missing'))\<close>: the cause of the
  enclosing failure is not the error of the nested click; that error is the cause of the
  cause. \<^verbatim>\<open>within('#box', s => s.within('#search', s => s))\<close>: nothing below
  \<^verbatim>\<open>#box\<close> matches \<^verbatim>\<open>#search\<close>, and the chain succeeds, since the scoped driver
  looks the selector up in the whole document. \<^verbatim>\<open>within('##', s => s)\<close>: the step
  fails with the \<^verbatim>\<open>SyntaxError\<close> of \<^verbatim>\<open>querySelector\<close>, which has returned no null.
\<close>

theorem nested_failure_is_the_cause:
  "Option.bind (fst (trigger (RTLDriver demo)
       (within ''#box'' [Do (Click ''Missing'')] (new_Session (new_RTLDriver None))) []))
     err_cause \<noteq> Some (not_found ''Missing'')
   \<and> Option.bind (Option.bind (fst (trigger (RTLDriver demo)
       (within ''#box'' [Do (Click ''Missing'')] (new_Session (new_RTLDriver None))) []))
     err_cause) err_cause = Some (not_found ''Missing'')
   \<and> querySelector demo (Some 5) ''#search'' [] = Inr None
   \<and> fst (trigger (RTLDriver demo)
       (within ''#box'' [Within ''#search'' []] (new_Session (new_RTLDriver None))) []) = None
   \<and> querySelector demo None ''##'' [] \<noteq> Inr None
   \<and> Option.bind (fst (trigger (RTLDriver demo)
       (within ''##'' [] (new_Session (new_RTLDriver None))) []))
     err_cause = Some (JsError ''SyntaxError'' ''## is not a valid selector'' None)"
  by (simp add: trigger_def executeSteps_def session_defs rtl_defs StepError_def)

text \<open>
  C6. \<^verbatim>\<open>fillIn\<close> followed by \<^verbatim>\<open>submit()\<close>. When \<^verbatim>\<open>fillIn\<close> fails the drain stops
  there and \<^verbatim>\<open>submit\<close> is not called. When \<^verbatim>\<open>fillIn\<close> succeeds on the RTL adapter,
  it has found an input by label or else by placeholder and recorded the closest
  enclosing form of that input: if the input has none, \<^verbatim>\<open>submit\<close> fails with its
  precondition error; if it has one, and no button of the form is named like
  \<^verbatim>\<open>/submit/i\<close> unless it is the first submit-typed control itself, \<^verbatim>\<open>submit\<close>
  clicks the first submit-typed control of the form if there is one and else calls
  \<^verbatim>\<open>requestSubmit()\<close> on the form. When \<^verbatim>\<open>fillIn\<close> succeeds on the Playwright adapter
  it has recorded a form locator, so \<^verbatim>\<open>submit\<close> does not take the precondition branch:
  it clicks the first submit-typed control under that locator if there is one, else
  presses Enter on its last input, textarea or select.
\<close>

theorem submit_after_fillIn:
  fixes env :: "('e, 'v) RTL" and penv :: "'p Playwright" and drv :: "('d, 'w) TestDriver"
  shows
    "(\<forall>d1 w1. rtl_fillIn env label v rd rw = (None, d1, w1) \<longrightarrow>
        (\<exists>input.
           (findByLabelText env (container rd) label rw = Inr input
            \<or> (\<exists>e. findByLabelText env (container rd) label rw = Inl e)
               \<and> findByPlaceholderText env (container rd) label rw = Inr input)
           \<and> lastFormElement d1 = closest_form env input w1
           \<and> (closest_form env input w1 = None \<longrightarrow>
                rtl_submit env d1 w1 =
                  (Some (Error ''submit() called but no form was previously interacted with.''),
                   d1, w1))
           \<and> (\<forall>form. closest_form env input w1 = Some form
                  \<and> (queryByRole_submit env form w1 = Inr None
                       \<or> (\<exists>b. queryByRole_submit env form w1 = Inr (Some b)
                             \<and> querySelector env (Some form) submit_selector w1 = Inr (Some b)))
                  \<longrightarrow>
                rtl_submit env d1 w1 =
                  (case querySelector env (Some form) submit_selector w1 of
                     Inl e \<Rightarrow> (Some e, d1, w1)
                   | Inr (Some b) \<Rightarrow> (case user_click env b w1 of (r, w') \<Rightarrow> (r, d1, w'))
                   | Inr None \<Rightarrow> (case requestSubmit env form w1 of (r, w') \<Rightarrow> (r, d1, w'))))))
     \<and> (\<forall>d1 w1. pw_fillIn penv label v pd pw = (None, d1, w1) \<longrightarrow>
        (\<exists>target.
           (target = GetByLabel (scope pd) label \<or> target = GetByPlaceholder (scope pd) label)
           \<and> lastFormLocator d1 = Some (Locator (scope pd) ''form'' (Some target))
           \<and> pw_submit penv d1 w1 =
               (if locator_count penv
                     (Locator (Locator (scope pd) ''form'' (Some target)) submit_selector None) w1 > 0
                then (case locator_click penv
                             (First (Locator (Locator (scope pd) ''form'' (Some target))
                                       submit_selector None)) w1 of
                        (r, w') \<Rightarrow> (r, d1, w'))
                else (case locator_press penv
                             (Last (Locator (Locator (scope pd) ''form'' (Some target))
                                      ''input, textarea, select'' None)) ''Enter'' w1 of
                        (r, w') \<Rightarrow> (r, d1, w')))))
     \<and> (\<forall>e d1 w1. steps s = [] \<and> perform drv (FillIn label v) (driver s) w = (Some e, d1, w1) \<longrightarrow>
          snd (snd (snd (trigger drv (submit (fillIn label v s)) w))) = [Called (FillIn label v)])"
proof -
  have 1: "\<exists>input.
           (findByLabelText env (container rd) label rw = Inr input
            \<or> (\<exists>e. findByLabelText env (container rd) label rw = Inl e)
               \<and> findByPlaceholderText env (container rd) label rw = Inr input)
           \<and> lastFormElement d1 = closest_form env input w1
           \<and> (closest_form env input w1 = None \<longrightarrow>
                rtl_submit env d1 w1 =
                  (Some (Error ''submit() called but no form was previously interacted with.''),
                   d1, w1))
           \<and> (\<forall>form. closest_form env input w1 = Some form
                  \<and> (queryByRole_submit env form w1 = Inr None
                       \<or> (\<exists>b. queryByRole_submit env form w1 = Inr (Some b)
                             \<and> querySelector env (Some form) submit_selector w1 = Inr (Some b)))
                  \<longrightarrow>
                rtl_submit env d1 w1 =
                  (case querySelector env (Some form) submit_selector w1 of
                     Inl e \<Rightarrow> (Some e, d1, w1)
                   | Inr (Some b) \<Rightarrow> (case user_click env b w1 of (r, w') \<Rightarrow> (r, d1, w'))
                   | Inr None \<Rightarrow> (case requestSubmit env form w1 of (r, w') \<Rightarrow> (r, d1, w'))))"
    if h: "rtl_fillIn env label v rd rw = (None, d1, w1)" for d1 w1
  proof -
    define found where "found =
      (case findByLabelText env (container rd) label rw of
         Inr input \<Rightarrow> Inr input
       | Inl _ \<Rightarrow> findByPlaceholderText env (container rd) label rw)"
    have h': "(case found of
        Inl e \<Rightarrow> (Some e, rd, rw)
      | Inr input \<Rightarrow>
          (case user_clear env input rw of
             (Some e, w1) \<Rightarrow> (Some e, rd, w1)
           | (None, w1) \<Rightarrow>
               (case user_type env input v w1 of
                  (Some e, w2) \<Rightarrow> (Some e, rd, w2)
                | (None, w2) \<Rightarrow>
                    (None, rd\<lparr>lastFormElement := closest_form env input w2\<rparr>, w2)))) = (None, d1, w1)"
      using h unfolding rtl_fillIn_def found_def .
    then obtain input where f: "found = Inr input"
      by (cases found) simp_all
    have d1: "d1 = rd\<lparr>lastFormElement := closest_form env input w1\<rparr>"
      using h' unfolding f by (simp split: prod.splits option.splits)
    have where_found: "findByLabelText env (container rd) label rw = Inr input
        \<or> (\<exists>e. findByLabelText env (container rd) label rw = Inl e)
           \<and> findByPlaceholderText env (container rd) label rw = Inr input"
      using f unfolding found_def by (cases "findByLabelText env (container rd) label rw") simp_all
    have last: "lastFormElement d1 = closest_form env input w1"
      by (simp add: d1)
    have none: "rtl_submit env d1 w1 =
        (Some (Error ''submit() called but no form was previously interacted with.''), d1, w1)"
      if "closest_form env input w1 = None"
      using that last by (simp add: rtl_submit_def)
    have some: "rtl_submit env d1 w1 =
        (case querySelector env (Some form) submit_selector w1 of
           Inl e \<Rightarrow> (Some e, d1, w1)
         | Inr (Some b) \<Rightarrow> (case user_click env b w1 of (r, w') \<Rightarrow> (r, d1, w'))
         | Inr None \<Rightarrow> (case requestSubmit env form w1 of (r, w') \<Rightarrow> (r, d1, w')))"
      if "closest_form env input w1 = Some form
          \<and> (queryByRole_submit env form w1 = Inr None
               \<or> (\<exists>b. queryByRole_submit env form w1 = Inr (Some b)
                     \<and> querySelector env (Some form) submit_selector w1 = Inr (Some b)))" for form
      using that last by (auto simp: rtl_submit_def split: sum.splits option.splits)
    show ?thesis
    proof (intro exI [of _ input] conjI allI impI)
      show "findByLabelText env (container rd) label rw = Inr input
        \<or> (\<exists>e. findByLabelText env (container rd) label rw = Inl e)
           \<and> findByPlaceholderText env (container rd) label rw = Inr input"
        by (rule where_found)
      show "lastFormElement d1 = closest_form env input w1"
        by (rule last)
    qed (erule none, erule some)
  qed
  have 2: "\<exists>target.
           (target = GetByLabel (scope pd) label \<or> target = GetByPlaceholder (scope pd) label)
           \<and> lastFormLocator d1 = Some (Locator (scope pd) ''form'' (Some target))
           \<and> pw_submit penv d1 w1 =
               (if locator_count penv
                     (Locator (Locator (scope pd) ''form'' (Some target)) submit_selector None) w1 > 0
                then (case locator_click penv
                             (First (Locator (Locator (scope pd) ''form'' (Some target))
                                       submit_selector None)) w1 of
                        (r, w') \<Rightarrow> (r, d1, w'))
                else (case locator_press penv
                             (Last (Locator (Locator (scope pd) ''form'' (Some target))
                                      ''input, textarea, select'' None)) ''Enter'' w1 of
                        (r, w') \<Rightarrow> (r, d1, w')))"
    if h: "pw_fillIn penv label v pd pw = (None, d1, w1)" for d1 w1
  proof -
    from pw_fillIn_success [OF h] obtain target where
      t: "target = GetByLabel (scope pd) label \<or> target = GetByPlaceholder (scope pd) label"
      and d1: "d1 = pd\<lparr>lastFormLocator := Some (Locator (scope pd) ''form'' (Some target))\<rparr>"
      by blast
    have last: "lastFormLocator d1 = Some (Locator (scope pd) ''form'' (Some target))"
      by (simp add: d1)
    show ?thesis
      using t last pw_submit_with_form [OF last] by (intro exI [of _ target] conjI)
  qed
  have 3: "snd (snd (snd (trigger drv (submit (fillIn label v s)) w))) = [Called (FillIn label v)]"
    if "steps s = []" "perform drv (FillIn label v) (driver s) w = (Some e, d1, w1)" for e d1 w1
    using that
    by (simp add: trigger_def executeSteps_def submit_def fillIn_def enqueue_def)
  show ?thesis
  proof (intro conjI allI impI)
    fix e d1 w1
    assume "steps s = [] \<and> perform drv (FillIn label v) (driver s) w = (Some e, d1, w1)"
    then show "snd (snd (snd (trigger drv (submit (fillIn label v s)) w))) = [Called (FillIn label v)]"
      using 3 by blast
  qed (erule 1, erule 2)
qed

theorem submit_after_fillIn_witness:
  "rtl_submit demo \<lparr>container = None, lastFormElement = Some 1\<rparr> [] =
     (None, \<lparr>container = None, lastFormElement = Some 1\<rparr>, [])
   \<and> pw_submit browser
        \<lparr>scope = PageScope,
           lastFormLocator = Some (Locator PageScope ''form'' (Some (GetByLabel PageScope ''Email'')))\<rparr>
        ''http://localhost/login''
      = (None,
         \<lparr>scope = PageScope,
            lastFormLocator = Some (Locator PageScope ''form'' (Some (GetByLabel PageScope ''Email'')))\<rparr>,
         ''http://localhost/login'')
   \<and> snd (snd (snd (trigger (RTLDriver demo)
        (submit (fillIn ''Nope'' ''x'' (new_Session (new_RTLDriver None)))) [])))
      = [Called (FillIn ''Nope'' ''x'')]"
proof -
  have h1: "rtl_fillIn demo ''Email'' ''a@b.c'' (new_RTLDriver None) []
      = (None, \<lparr>container = None, lastFormElement = Some 1\<rparr>, [])"
    by (simp add: rtl_fillIn_def demo_def new_RTLDriver_def)
  have h2: "pw_fillIn browser ''Email'' ''a@b.c'' (new_PlaywrightDriver PageScope) ''http://localhost/login''
      = (None,
         \<lparr>scope = PageScope,
            lastFormLocator = Some (Locator PageScope ''form'' (Some (GetByLabel PageScope ''Email'')))\<rparr>,
         ''http://localhost/login'')"
    by (simp add: pw_fillIn_def browser_def new_PlaywrightDriver_def)
  have h3: "steps (new_Session (new_RTLDriver (None :: nat option))) = []
      \<and> perform (RTLDriver demo) (FillIn ''Nope'' ''x'') (driver (new_Session (new_RTLDriver None))) []
          = (Some (not_found ''Nope''), new_RTLDriver None, [])"
    by (simp add: new_Session_def RTLDriver_def rtl_fillIn_def demo_def new_RTLDriver_def)
  note t = submit_after_fillIn [where env = demo and penv = browser and drv = "RTLDriver demo"
      and label = "''Email''" and v = "''a@b.c''" and rd = "new_RTLDriver None" and rw = "[]"
      and pd = "new_PlaywrightDriver PageScope" and pw = "''http://localhost/login''"]
  note t' = submit_after_fillIn [where env = demo and penv = browser and drv = "RTLDriver demo"
      and label = "''Nope''" and v = "''x''" and s = "new_Session (new_RTLDriver None)" and w = "[]"]
  from t [THEN conjunct1, rule_format, OF h1] obtain input where
    i: "findByLabelText demo (container (new_RTLDriver None)) ''Email'' [] = Inr input
        \<or> (\<exists>e. findByLabelText demo (container (new_RTLDriver None)) ''Email'' [] = Inl e)
           \<and> findByPlaceholderText demo (container (new_RTLDriver None)) ''Email'' [] = Inr input"
    and sub: "\<forall>form. closest_form demo input [] = Some form
        \<and> (queryByRole_submit demo form [] = Inr None
             \<or> (\<exists>b. queryByRole_submit demo form [] = Inr (Some b)
                   \<and> querySelector demo (Some form) submit_selector [] = Inr (Some b))) \<longrightarrow>
        rtl_submit demo \<lparr>container = None, lastFormElement = Some 1\<rparr> [] =
          (case querySelector demo (Some form) submit_selector [] of
             Inl e \<Rightarrow> (Some e, \<lparr>container = None, lastFormElement = Some 1\<rparr>, [])
           | Inr (Some b) \<Rightarrow> (case user_click demo b [] of
                               (r, w') \<Rightarrow> (r, \<lparr>container = None, lastFormElement = Some 1\<rparr>, w'))
           | Inr None \<Rightarrow> (case requestSubmit demo form [] of
                             (r, w') \<Rightarrow> (r, \<lparr>container = None, lastFormElement = Some 1\<rparr>, w')))"
    by (auto simp: demo_def)
  have input: "input = 2"
    using i by (simp add: demo_def new_RTLDriver_def)
  have form: "closest_form demo input [] = Some 1
      \<and> (queryByRole_submit demo 1 [] = Inr None
           \<or> (\<exists>b. queryByRole_submit demo 1 [] = Inr (Some b)
                 \<and> querySelector demo (Some 1) submit_selector [] = Inr (Some b)))"
    by (simp add: input demo_def)
  from sub [rule_format, OF form]
  have a: "rtl_submit demo \<lparr>container = None, lastFormElement = Some 1\<rparr> [] =
     (None, \<lparr>container = None, lastFormElement = Some 1\<rparr>, [])"
    by (simp add: demo_def submit_selector_def dq_def)
  from t [THEN conjunct2, THEN conjunct1, rule_format, OF h2]
  have b: "pw_submit browser
        \<lparr>scope = PageScope,
           lastFormLocator = Some (Locator PageScope ''form'' (Some (GetByLabel PageScope ''Email'')))\<rparr>
        ''http://localhost/login''
      = (None,
         \<lparr>scope = PageScope,
            lastFormLocator = Some (Locator PageScope ''form'' (Some (GetByLabel PageScope ''Email'')))\<rparr>,
         ''http://localhost/login'')"
    by (auto simp: browser_def new_PlaywrightDriver_def)
  from t' [THEN conjunct2, THEN conjunct2, rule_format, OF h3]
  have c: "snd (snd (snd (trigger (RTLDriver demo)
        (submit (fillIn ''Nope'' ''x'' (new_Session (new_RTLDriver None)))) [])))
      = [Called (FillIn ''Nope'' ''x'')]" .
  from a b c show ?thesis by blast
qed

text \<open>
  On the page above the input labelled \<^verbatim>\<open>Search\<close> stands outside any form:
  \<^verbatim>\<open>fillIn('Search', 'x')\<close> resolves it and succeeds, both driver methods are called,
  and \<^verbatim>\<open>submit()\<close> fails with the precondition error.
\<close>

theorem submit_fails_after_successful_fillIn:
  "findByLabelText demo None ''Search'' [] = Inr 4
   \<and> fst (rtl_fillIn demo ''Search'' ''x'' (new_RTLDriver None) []) = None
   \<and> snd (snd (snd (trigger (RTLDriver demo)
        (submit (fillIn ''Search'' ''x'' (new_Session (new_RTLDriver None)))) [])))
      = [Called (FillIn ''Search'' ''x''), Called Submit]
   \<and> Option.bind (fst (trigger (RTLDriver demo)
        (submit (fillIn ''Search'' ''x'' (new_Session (new_RTLDriver None)))) [])) err_cause
      = Some (Error ''submit() called but no form was previously interacted with.'')"
  by (simp add: trigger_def executeSteps_def session_defs rtl_defs StepError_def)




end
